theory Spec2Isabelle
  imports Complex_Main "HOL-Library.AList"
begin

section \<open>Values, errors and containers of the Python code\<close>

text \<open>
  The backend is Python. Its floats are idealised as \<^typ>\<open>real\<close>: every comparison and
  every sum below is the exact one, and no statement depends on rounding.
  A raised exception is the \<open>Inl\<close> branch of a sum.
\<close>

datatype py_error =
    KeyError string
  | TypeError
  | ZeroDivisionError
  | ValueError
  | AttributeError
  | RequestValidationError string
  | HTTPException nat string
  | ValidationError string

text \<open>
  The values a parameter dictionary (\<open>Dict[str, Any]\<close>) holds in the documented attack
  types: a number, a list of numbers (the replay buffer) or a string (the signal name).
  A value of another shape where a number, a list or a name is read is \<open>TypeError\<close>.
\<close>

datatype py_value = PFloat real | PList "real list" | PStr string

type_synonym py_dict = "string \<rightharpoonup> py_value"
type_synonym signal_map = "string \<rightharpoonup> real"

definition bind_err :: "('e + 'a) \<Rightarrow> ('a \<Rightarrow> 'e + 'b) \<Rightarrow> 'e + 'b" where
  "bind_err m f = (case m of Inl e \<Rightarrow> Inl e | Inr x \<Rightarrow> f x)"

text \<open>\<open>d[k]\<close>: a missing key raises \<open>KeyError\<close>.\<close>

definition getitem :: "py_dict \<Rightarrow> string \<Rightarrow> py_error + py_value" where
  "getitem d k = (case d k of None \<Rightarrow> Inl (KeyError k) | Some v \<Rightarrow> Inr v)"

text \<open>\<open>d.get(k, default)\<close>.\<close>

definition get_default :: "py_dict \<Rightarrow> string \<Rightarrow> py_value \<Rightarrow> py_value" where
  "get_default d k dflt = (case d k of None \<Rightarrow> dflt | Some v \<Rightarrow> v)"

definition as_float :: "py_value \<Rightarrow> py_error + real" where
  "as_float v = (case v of PFloat x \<Rightarrow> Inr x | _ \<Rightarrow> Inl TypeError)"

definition as_list :: "py_value \<Rightarrow> py_error + real list" where
  "as_list v = (case v of PList xs \<Rightarrow> Inr xs | _ \<Rightarrow> Inl TypeError)"

definition as_str :: "py_value \<Rightarrow> py_error + string" where
  "as_str v = (case v of PStr s \<Rightarrow> Inr s | _ \<Rightarrow> Inl TypeError)"

text \<open>\<open>signals[target]\<close> on the signal dictionary.\<close>

definition signal_at :: "signal_map \<Rightarrow> string \<Rightarrow> py_error + real" where
  "signal_at s k = (case s k of None \<Rightarrow> Inl (KeyError k) | Some v \<Rightarrow> Inr v)"

text \<open>\<open>int(x)\<close> on a float truncates towards zero.\<close>

definition py_int :: "real \<Rightarrow> int" where
  "py_int x = (if 0 \<le> x then \<lfloor>x\<rfloor> else \<lceil>x\<rceil>)"

text \<open>
  Truthiness of an \<open>Optional[float]\<close>, as in \<open>if duration and ...\<close>: \<open>None\<close> and \<open>0.0\<close>
  are both false.
\<close>

definition truthy :: "real option \<Rightarrow> bool" where
  "truthy d = (case d of None \<Rightarrow> False | Some x \<Rightarrow> x \<noteq> 0)"


section \<open>The attack service (\<open>attack_service.py\<close>)\<close>

datatype AttackType = DOS | FALSE_DATA | REPLAY | RAMP | RANDOM_NOISE

text \<open>
  One entry of \<open>_active_attacks\<close>; the dictionary key \<open>"type"\<close> is the field
  \<open>attack_type\<close>. The status is the string the code stores.
\<close>

record attack =
  attack_id :: string
  attack_type :: AttackType
  target_signal :: string
  start_time :: real
  duration :: "real option"
  params :: py_dict
  status :: string

text \<open>
  \<open>_active_attacks\<close> is a Python dictionary: iteration follows insertion order, and
  assigning to a key that is present replaces the value in place. That is an association
  list under \<^const>\<open>AList.update\<close>.
\<close>

record AttackService =
  active_attacks :: "(string \<times> attack) list"

definition new_service :: AttackService where
  "new_service = \<lparr>active_attacks = []\<rparr>"

definition register_attack ::
  "AttackService \<Rightarrow> string \<Rightarrow> AttackType \<Rightarrow> string \<Rightarrow> real \<Rightarrow> real option \<Rightarrow> py_dict
     \<Rightarrow> AttackService" where
  "register_attack svc aid atype target start dur ps =
     svc\<lparr>active_attacks :=
       AList.update aid
         \<lparr>attack_id = aid, attack_type = atype, target_signal = target, start_time = start,
          duration = dur, params = ps, status = ''armed''\<rparr>
         (active_attacks svc)\<rparr>"

text \<open>
  The branch \<open>INYECTAR SEGUN TIPO\<close> of the loop body. \<open>signals\<close> is the real snapshot,
  \<open>attacked_signals\<close> the copy being built, \<open>noise\<close> the number that
  \<open>np.random.normal(0, noise_std)\<close> returns in this call for this attack
  (numpy raises \<open>ValueError\<close> on a negative scale).
\<close>

definition apply_attack ::
  "real \<Rightarrow> signal_map \<Rightarrow> real \<Rightarrow> attack \<Rightarrow> signal_map \<Rightarrow> py_error + signal_map" where
  "apply_attack t signals noise a attacked_signals =
    (case attack_type a of
       DOS \<Rightarrow>
         bind_err (bind_err (getitem (params a) ''target_signal'') as_str) (\<lambda>target.
         bind_err (as_float (get_default (params a) ''blocked_value'' (PFloat 0))) (\<lambda>blocked_value.
           Inr (attacked_signals(target \<mapsto> blocked_value))))
     | FALSE_DATA \<Rightarrow>
         bind_err (bind_err (getitem (params a) ''target_signal'') as_str) (\<lambda>target.
         bind_err (bind_err (getitem (params a) ''false_value'') as_float) (\<lambda>false_value.
           Inr (attacked_signals(target \<mapsto> false_value))))
     | REPLAY \<Rightarrow>
         bind_err (bind_err (getitem (params a) ''target_signal'') as_str) (\<lambda>target.
         bind_err (bind_err (getitem (params a) ''replay_buffer'') as_list) (\<lambda>buffer.
           let elapsed = t - start_time a in
           if length buffer = 0 then Inl ZeroDivisionError
           else let idx = py_int elapsed mod int (length buffer)
                in Inr (attacked_signals(target \<mapsto> buffer ! nat idx))))
     | RAMP \<Rightarrow>
         bind_err (bind_err (getitem (params a) ''target_signal'') as_str) (\<lambda>target.
         bind_err (bind_err (getitem (params a) ''rate'') as_float) (\<lambda>rate.
           let elapsed = t - start_time a;
               offset = rate * elapsed
           in bind_err (signal_at signals target) (\<lambda>v.
                Inr (attacked_signals(target \<mapsto> v + offset)))))
     | RANDOM_NOISE \<Rightarrow>
         bind_err (bind_err (getitem (params a) ''target_signal'') as_str) (\<lambda>target.
         bind_err (bind_err (getitem (params a) ''noise_std'') as_float) (\<lambda>noise_std.
           if noise_std < 0 then Inl ValueError
           else bind_err (signal_at signals target) (\<lambda>v.
                  Inr (attacked_signals(target \<mapsto> v + noise))))))"

text \<open>
  The body of \<open>for attack_id, attack in self._active_attacks.items()\<close>: the entry as the
  body leaves it (the status is written in place, also when the injection then raises)
  and the copy of the signals, or the exception.
\<close>

definition inject_one ::
  "real \<Rightarrow> signal_map \<Rightarrow> (string \<Rightarrow> real) \<Rightarrow> string \<Rightarrow> attack \<Rightarrow> signal_map
     \<Rightarrow> attack \<times> (py_error + signal_map)" where
  "inject_one t signals rng aid a attacked_signals =
    (let start = start_time a; dur = duration a in
     if t < start then (a, Inr attacked_signals)
     else if truthy dur \<and> t > start + the dur then
       (if status a = ''active'' then a\<lparr>status := ''completed''\<rparr> else a, Inr attacked_signals)
     else
       let a' = (if status a = ''armed'' \<and> t \<ge> start then a\<lparr>status := ''active''\<rparr> else a)
       in (a', apply_attack t signals (rng aid) a' attacked_signals))"

fun inject_loop ::
  "real \<Rightarrow> signal_map \<Rightarrow> (string \<Rightarrow> real) \<Rightarrow> (string \<times> attack) list \<Rightarrow> signal_map
     \<Rightarrow> (string \<times> attack) list \<times> (py_error + signal_map)" where
  "inject_loop t signals rng [] attacked_signals = ([], Inr attacked_signals)"
| "inject_loop t signals rng ((aid, a) # rest) attacked_signals =
     (case inject_one t signals rng aid a attacked_signals of
        (a', Inl e) \<Rightarrow> ((aid, a') # rest, Inl e)
      | (a', Inr attacked') \<Rightarrow>
          (case inject_loop t signals rng rest attacked' of
             (rest', r) \<Rightarrow> ((aid, a') # rest', r)))"

text \<open>
  \<open>inject_attacks(t, run_id, signals)\<close>: the returned dictionary (or the exception) and
  the service with the statuses the call wrote. \<open>run_id\<close> is not read by the body.
\<close>

definition inject_attacks ::
  "AttackService \<Rightarrow> real \<Rightarrow> int \<Rightarrow> signal_map \<Rightarrow> (string \<Rightarrow> real)
     \<Rightarrow> (py_error + signal_map) \<times> AttackService" where
  "inject_attacks svc t run_id signals rng =
     (case inject_loop t signals rng (active_attacks svc) signals of
        (reg', r) \<Rightarrow> (r, svc\<lparr>active_attacks := reg'\<rparr>))"


text \<open>A run of the service: the calls the simulation loop (or anyone else) makes, in order.\<close>

type_synonym inject_call = "real \<times> int \<times> signal_map \<times> (string \<Rightarrow> real)"

fun inject_calls :: "AttackService \<Rightarrow> inject_call list \<Rightarrow> AttackService" where
  "inject_calls svc [] = svc"
| "inject_calls svc ((t, run_id, signals, rng) # cs) =
     inject_calls (snd (inject_attacks svc t run_id signals rng)) cs"

text \<open>The service before the first call and after each call.\<close>

fun service_history :: "AttackService \<Rightarrow> inject_call list \<Rightarrow> AttackService list" where
  "service_history svc [] = [svc]"
| "service_history svc ((t, run_id, signals, rng) # cs) =
     svc # service_history (snd (inject_attacks svc t run_id signals rng)) cs"

definition status_of :: "AttackService \<Rightarrow> string \<Rightarrow> string option" where
  "status_of svc aid = map_option status (map_of (active_attacks svc) aid)"


section \<open>Removal of an attack\<close>

text \<open>
  Modelled from the spec: the removal operation of the management interface
  (\<open>DELETE /api/v1/attacks/{id}\<close>), whose handler is not among the sources; only its
  API description is. The specification says: removal is rejected with an error unless
  the attack's current status is \<open>armed\<close>, and the error is a \<open>ValidationError\<close>, local
  to the call. An identifier that is not registered is answered with the 404 of the API
  description.
\<close>

definition remove_attack :: "AttackService \<Rightarrow> string \<Rightarrow> (py_error + unit) \<times> AttackService" where
  "remove_attack svc aid =
     (case map_of (active_attacks svc) aid of
        None \<Rightarrow> (Inl (HTTPException 404 ''Ataque no encontrado''), svc)
      | Some a \<Rightarrow>
          if status a = ''armed''
          then (Inr (), svc\<lparr>active_attacks := AList.delete aid (active_attacks svc)\<rparr>)
          else (Inl (ValidationError ''No se puede eliminar un ataque activo''), svc))"


section \<open>Registration through the API (\<open>routers/attacks.py\<close>)\<close>

text \<open>
  The body of a \<open>POST /attacks\<close> request, and the pydantic schema
  \<open>AttackCreateRequest\<close> that FastAPI checks before the handler runs:
  \<open>run_id > 0\<close>, \<open>1 \<le> len(target_signal) \<le> 100\<close>, \<open>start_time \<ge> 0\<close>,
  \<open>duration\<close> absent or \<open>\<ge> 0\<close>.
\<close>

record AttackCreateRequest =
  req_run_id :: int
  req_attack_type :: AttackType
  req_target_signal :: string
  req_start_time :: real
  req_duration :: "real option"
  req_parameters :: py_dict

definition check_request :: "AttackCreateRequest \<Rightarrow> py_error + AttackCreateRequest" where
  "check_request r =
     (if \<not> req_run_id r > 0 then Inl (RequestValidationError ''run_id'')
      else if \<not> (1 \<le> length (req_target_signal r) \<and> length (req_target_signal r) \<le> 100)
        then Inl (RequestValidationError ''target_signal'')
      else if \<not> req_start_time r \<ge> 0 then Inl (RequestValidationError ''start_time'')
      else if (case req_duration r of None \<Rightarrow> False | Some d \<Rightarrow> \<not> d \<ge> 0)
        then Inl (RequestValidationError ''duration'')
      else Inr r)"

text \<open>A row of the table \<open>attacks\<close>, and the part of the database the handler touches.\<close>

record db_attack =
  db_attack_id :: string
  simulation_run_id :: int
  db_attack_type :: AttackType
  target_component :: string
  trigger_time :: real
  db_duration :: "real option"
  parameters :: py_dict
  db_status :: string
  started_at :: "nat option"
  ended_at :: "nat option"
  success :: "bool option"

record database =
  run_owner :: "int \<rightharpoonup> int"
  attack_rows :: "db_attack list"

text \<open>
  Modelled from the spec: \<open>AttackService.validate_attack_params\<close>, which the handler
  calls and the sources do not contain. The specification's table of kinds gives the
  required parameters: \<open>blocked_value\<close> is optional for dos, \<open>false_value\<close> is required
  for false data injection, a non-empty \<open>replay_buffer\<close> for replay, \<open>rate\<close> for ramp
  and a \<open>noise_std \<ge> 0\<close> for random noise, each of its numeric type. It receives the
  attack type and the merged parameter dictionary only.
\<close>

definition validate_attack_params :: "AttackType \<Rightarrow> py_dict \<Rightarrow> bool \<times> string" where
  "validate_attack_params atype ps =
     (case atype of
        DOS \<Rightarrow>
          (case ps ''blocked_value'' of
             None \<Rightarrow> (True, [])
           | Some (PFloat x) \<Rightarrow> (True, [])
           | Some _ \<Rightarrow> (False, ''blocked_value must be a number''))
      | FALSE_DATA \<Rightarrow>
          (case ps ''false_value'' of
             Some (PFloat x) \<Rightarrow> (True, [])
           | _ \<Rightarrow> (False, ''false_value is required''))
      | REPLAY \<Rightarrow>
          (case ps ''replay_buffer'' of
             Some (PList xs) \<Rightarrow>
               if xs = [] then (False, ''replay_buffer must not be empty'') else (True, [])
           | _ \<Rightarrow> (False, ''replay_buffer is required''))
      | RAMP \<Rightarrow>
          (case ps ''rate'' of
             Some (PFloat x) \<Rightarrow> (True, [])
           | _ \<Rightarrow> (False, ''rate is required''))
      | RANDOM_NOISE \<Rightarrow>
          (case ps ''noise_std'' of
             Some (PFloat x) \<Rightarrow>
               if x < 0 then (False, ''noise_std must not be negative'') else (True, [])
           | _ \<Rightarrow> (False, ''noise_std is required'')))"

text \<open>
  \<open>create_attack(request, db, user)\<close>. \<open>validate\<close> stands for
  \<open>attack_service.validate_attack_params\<close>, \<open>new_id\<close> for the identifier the row
  receives when it is created. A run that does not exist makes \<open>run.model\<close> fail on
  \<open>None\<close>. The result is the response (the stored row) or the error, with the
  database and the service as the call leaves them.
\<close>

definition create_attack ::
  "(AttackType \<Rightarrow> py_dict \<Rightarrow> bool \<times> string) \<Rightarrow> string \<Rightarrow> AttackCreateRequest \<Rightarrow> database \<Rightarrow> int
     \<Rightarrow> AttackService \<Rightarrow> (py_error + db_attack) \<times> database \<times> AttackService" where
  "create_attack validate new_id request db user svc =
     (case run_owner db (req_run_id request) of
        None \<Rightarrow> (Inl AttributeError, db, svc)
      | Some owner_id \<Rightarrow>
          if owner_id \<noteq> user then (Inl (HTTPException 403 ''No tienes permisos''), db, svc)
          else
            let attack_params =
                  [''target_signal'' \<mapsto> PStr (req_target_signal request)] ++ req_parameters request
            in (case validate (req_attack_type request) attack_params of
                  (valid, error) \<Rightarrow>
                    if \<not> valid then (Inl (HTTPException 400 error), db, svc)
                    else
                      let row = \<lparr>db_attack_id = new_id,
                                 simulation_run_id = req_run_id request,
                                 db_attack_type = req_attack_type request,
                                 target_component = req_target_signal request,
                                 trigger_time = req_start_time request,
                                 db_duration = req_duration request,
                                 parameters = req_parameters request,
                                 db_status = ''armed'',
                                 started_at = None, ended_at = None, success = None\<rparr>;
                          db' = db\<lparr>attack_rows := attack_rows db @ [row]\<rparr>;
                          svc' = register_attack svc new_id (req_attack_type request)
                                   (req_target_signal request) (req_start_time request)
                                   (req_duration request) attack_params
                      in (Inr row, db', svc')))"

text \<open>The endpoint: the schema check, then the handler.\<close>

definition post_attack ::
  "(AttackType \<Rightarrow> py_dict \<Rightarrow> bool \<times> string) \<Rightarrow> string \<Rightarrow> AttackCreateRequest \<Rightarrow> database \<Rightarrow> int
     \<Rightarrow> AttackService \<Rightarrow> (py_error + db_attack) \<times> database \<times> AttackService" where
  "post_attack validate new_id raw db user svc =
     (case check_request raw of
        Inl e \<Rightarrow> (Inl e, db, svc)
      | Inr request \<Rightarrow> create_attack validate new_id request db user svc)"


section \<open>The Runge-Kutta step\<close>

text \<open>
  \<open>rk4_step(f, y, t, dt)\<close>, for a state that is a number or a vector of numbers.
\<close>

definition rk4_step :: "(real \<Rightarrow> 'a \<Rightarrow> 'a) \<Rightarrow> 'a::real_vector \<Rightarrow> real \<Rightarrow> real \<Rightarrow> 'a" where
  "rk4_step f y t dt =
     (let k1 = f t y;
          k2 = f (t + dt / 2) (y + (dt *\<^sub>R k1) /\<^sub>R 2);
          k3 = f (t + dt / 2) (y + (dt *\<^sub>R k2) /\<^sub>R 2);
          k4 = f (t + dt) (y + dt *\<^sub>R k3)
      in y + (dt / 6) *\<^sub>R (k1 + 2 *\<^sub>R k2 + 2 *\<^sub>R k3 + k4))"

text \<open>
  The same function with the calls of \<open>f\<close> made visible: each call appends its
  arguments to a log.
\<close>

definition call_logged ::
  "(real \<Rightarrow> 'a \<Rightarrow> 'a) \<Rightarrow> real \<Rightarrow> 'a \<Rightarrow> (real \<times> 'a) list \<Rightarrow> 'a \<times> (real \<times> 'a) list" where
  "call_logged f t y calls = (f t y, calls @ [(t, y)])"

definition rk4_step_logged ::
  "(real \<Rightarrow> 'a \<Rightarrow> 'a) \<Rightarrow> 'a::real_vector \<Rightarrow> real \<Rightarrow> real \<Rightarrow> (real \<times> 'a) list
     \<Rightarrow> 'a \<times> (real \<times> 'a) list" where
  "rk4_step_logged f y t dt log0 =
     (case call_logged f t y log0 of (k1, log1) \<Rightarrow>
      case call_logged f (t + dt / 2) (y + (dt *\<^sub>R k1) /\<^sub>R 2) log1 of (k2, log2) \<Rightarrow>
      case call_logged f (t + dt / 2) (y + (dt *\<^sub>R k2) /\<^sub>R 2) log2 of (k3, log3) \<Rightarrow>
      case call_logged f (t + dt) (y + dt *\<^sub>R k3) log3 of (k4, log4) \<Rightarrow>
        (y + (dt / 6) *\<^sub>R (k1 + 2 *\<^sub>R k2 + 2 *\<^sub>R k3 + k4), log4))"


section \<open>The simulator (\<open>engine/core/simulator.py\<close>)\<close>

text \<open>
  Modelled from the spec: the controller behind \<open>Simulator._compute_control\<close>
  (\<open>engine/controllers/pid_controller.py\<close>), which the sources describe and do not
  contain. The specification: \<open>compute(observed_signals, dt)\<close> gives the manipulated
  variables; for the configured controlled variable and setpoint
  \<open>e = setpoint - observed_value\<close>; the integral term accumulates \<open>e * dt\<close> only while
  the output is not saturated (the update is skipped when the un-clamped output would
  leave \<open>[output_min, output_max]\<close>); the derivative term is \<open>(e - e_prev) / dt\<close>; the
  output is \<open>clamp(Kp*e + Ki*integral + Kd*de/dt, output_min, output_max)\<close>. The
  controller state holds the accumulated integral term, the previous error and the
  output bounds. A controlled variable that the dictionary lacks is a \<open>KeyError\<close>, a
  step of zero a division by zero.
\<close>

record pid_config =
  Kp :: real
  Ki :: real
  Kd :: real
  setpoint :: real
  controlled_variable :: string
  manipulated_variable :: string

record ControllerState =
  integral_term :: real
  prev_error :: real
  output_min :: real
  output_max :: real

definition clamp :: "real \<Rightarrow> real \<Rightarrow> real \<Rightarrow> real" where
  "clamp x lo hi = max lo (min hi x)"

definition pid_compute ::
  "pid_config \<Rightarrow> ControllerState \<Rightarrow> signal_map \<Rightarrow> real
     \<Rightarrow> py_error + (signal_map \<times> ControllerState)" where
  "pid_compute cfg cs observed_signals dt =
     (case observed_signals (controlled_variable cfg) of
        None \<Rightarrow> Inl (KeyError (controlled_variable cfg))
      | Some observed_value \<Rightarrow>
          if dt = 0 then Inl ZeroDivisionError
          else
            let e = setpoint cfg - observed_value;
                de = (e - prev_error cs) / dt;
                accumulated = integral_term cs + e * dt;
                unclamped = Kp cfg * e + Ki cfg * accumulated + Kd cfg * de;
                saturated = (unclamped < output_min cs \<or> output_max cs < unclamped);
                integral' = (if saturated then integral_term cs else accumulated);
                u = clamp (Kp cfg * e + Ki cfg * integral' + Kd cfg * de)
                      (output_min cs) (output_max cs)
            in Inr ([manipulated_variable cfg \<mapsto> u],
                    cs\<lparr>integral_term := integral', prev_error := e\<rparr>))"

text \<open>
  Modelled from the spec: the component model and the solver behind
  \<open>Simulator._compute_real_signals\<close> and \<open>Simulator._integrate\<close>, which the sources do
  not contain. The specification: a component implements the pure operations
  \<open>initial_state\<close>, \<open>derivatives(t, full_state, control_inputs, params)\<close> and
  \<open>signals(full_state)\<close>, and the loop merges the components; the record below is the
  merged model, over a state vector. The solver produces \<open>state + delta\<close>, with
  \<open>delta = dt * f(t, state, control)\<close> for Euler and the four stages of \<open>rk4_step\<close> for
  RK4. The specification's failure on a non-finite derivative has no counterpart over
  the reals.
\<close>

record 'st component_model =
  initial_state :: 'st
  derivatives :: "real \<Rightarrow> 'st \<Rightarrow> signal_map \<Rightarrow> 'st"
  signals_of :: "'st \<Rightarrow> signal_map"

datatype solver_method = Euler | RK4

record 'st SimulationModel =
  components :: "'st component_model"
  solver :: solver_method
  controller :: pid_config

definition solver_step ::
  "solver_method \<Rightarrow> (real \<Rightarrow> 'st \<Rightarrow> signal_map \<Rightarrow> 'st) \<Rightarrow> 'st::real_vector \<Rightarrow> signal_map
     \<Rightarrow> real \<Rightarrow> real \<Rightarrow> 'st" where
  "solver_step m f state control t dt =
     (case m of
        Euler \<Rightarrow> state + dt *\<^sub>R f t state control
      | RK4 \<Rightarrow> rk4_step (\<lambda>t' y. f t' y control) state t dt)"

text \<open>
  The simulator object: every method below receives it whole, as \<open>self\<close>, and returns
  it as the method leaves it.
\<close>

record 'st Simulator =
  sim_model :: "'st SimulationModel"
  sim_run_id :: int
  sim_t :: real
  sim_dt :: real
  sim_state :: 'st
  sim_controller :: ControllerState

text \<open>
  Modelled from the spec: the three methods of the simulator that \<open>step\<close> calls and
  the sources do not contain. \<open>_compute_real_signals()\<close> is the specification's step 1,
  the signals of the component model at the current state;
  \<open>_compute_control(observed_signals)\<close> is step 3, the controller on the dictionary it
  is handed, with the simulator's \<open>dt\<close>, and it stores the controller state;
  \<open>_integrate(real_signals, control_actions, dt)\<close> is step 4, the solver on the
  derivatives of the component model, and it stores the state.
\<close>

definition compute_real_signals :: "'st Simulator \<Rightarrow> signal_map" where
  "compute_real_signals self = signals_of (components (sim_model self)) (sim_state self)"

definition compute_control ::
  "'st Simulator \<Rightarrow> signal_map \<Rightarrow> py_error + (signal_map \<times> 'st Simulator)" where
  "compute_control self observed_signals =
     (case pid_compute (controller (sim_model self)) (sim_controller self) observed_signals
             (sim_dt self) of
        Inl e \<Rightarrow> Inl e
      | Inr (control_actions, cs) \<Rightarrow> Inr (control_actions, self\<lparr>sim_controller := cs\<rparr>))"

definition integrate ::
  "'st::real_vector Simulator \<Rightarrow> signal_map \<Rightarrow> signal_map \<Rightarrow> real \<Rightarrow> 'st Simulator" where
  "integrate self real_signals control_actions dt =
     self\<lparr>sim_state :=
       solver_step (solver (sim_model self)) (derivatives (components (sim_model self)))
         (sim_state self) control_actions (sim_t self) dt\<rparr>"

text \<open>
  Modelled from the spec: \<open>AttackService.get_active_attacks(run_id)\<close>, which fills the
  field \<open>attacks\<close> of the message and is not among the sources: the attacks whose
  status is active.
\<close>

definition get_active_attacks :: "AttackService \<Rightarrow> int \<Rightarrow> (string \<times> attack) list" where
  "get_active_attacks svc run_id = filter (\<lambda>(aid, a). status a = ''active'') (active_attacks svc)"

text \<open>The message \<open>step\<close> sends on the websocket.\<close>

record telemetry =
  tel_t :: real
  tel_real :: signal_map
  tel_observed :: signal_map
  tel_control :: signal_map
  tel_attacks :: "(string \<times> attack) list"

text \<open>
  \<open>_update_attack_states\<close>: for each attack of the service, the first row with its
  identifier takes the service's status when it differs, and the time stamps
  \<open>started_at\<close> and \<open>ended_at\<close> when they are not set yet. \<open>now\<close> is
  \<open>datetime.utcnow()\<close>.
\<close>

definition sync_row :: "nat \<Rightarrow> attack \<Rightarrow> db_attack \<Rightarrow> db_attack" where
  "sync_row now a row =
     (if db_status row \<noteq> status a then
        let r1 = row\<lparr>db_status := status a\<rparr>;
            r2 = (if status a = ''active'' \<and> started_at r1 = None
                  then r1\<lparr>started_at := Some now\<rparr> else r1);
            r3 = (if status a = ''completed'' \<and> ended_at r2 = None
                  then r2\<lparr>ended_at := Some now, success := Some True\<rparr> else r2)
        in r3
      else row)"

fun update_first :: "('a \<Rightarrow> bool) \<Rightarrow> ('a \<Rightarrow> 'a) \<Rightarrow> 'a list \<Rightarrow> 'a list" where
  "update_first p f [] = []"
| "update_first p f (x # xs) = (if p x then f x # xs else x # update_first p f xs)"

fun update_attack_states :: "nat \<Rightarrow> (string \<times> attack) list \<Rightarrow> db_attack list \<Rightarrow> db_attack list" where
  "update_attack_states now [] rows = rows"
| "update_attack_states now ((aid, a) # rest) rows =
     update_attack_states now rest
       (update_first (\<lambda>row. db_attack_id row = aid) (sync_row now a) rows)"

text \<open>
  \<open>Simulator.step(dt, websocket)\<close>, as the listing has it: the five calls in their
  order, each method on the simulator as the one before left it. An exception of
  \<open>inject_attacks\<close> or of the controller leaves the step: the simulator and the
  database stay as they were, the statuses the service wrote stay written.
\<close>

definition step ::
  "nat \<Rightarrow> (string \<Rightarrow> real) \<Rightarrow> real \<Rightarrow> 'st::real_vector Simulator \<Rightarrow> AttackService \<Rightarrow> database
     \<Rightarrow> (py_error + telemetry) \<times> 'st Simulator \<times> AttackService \<times> database" where
  "step now rng dt self svc db =
     (let real_signals = compute_real_signals self in
      case inject_attacks svc (sim_t self) (sim_run_id self) real_signals rng of
        (Inl e, svc') \<Rightarrow> (Inl e, self, svc', db)
      | (Inr observed_signals, svc') \<Rightarrow>
          (case compute_control self observed_signals of
             Inl e \<Rightarrow> (Inl e, self, svc', db)
           | Inr (control_actions, self1) \<Rightarrow>
               let self2 = integrate self1 real_signals control_actions dt;
                   db' = db\<lparr>attack_rows :=
                            update_attack_states now (active_attacks svc') (attack_rows db)\<rparr>;
                   msg = \<lparr>tel_t = sim_t self2, tel_real = real_signals,
                          tel_observed = observed_signals, tel_control = control_actions,
                          tel_attacks = get_active_attacks svc' (sim_run_id self2)\<rparr>
               in (Inr msg, self2\<lparr>sim_t := sim_t self2 + dt\<rparr>, svc', db')))"


section \<open>Notions used in the statements\<close>

text \<open>
  The condition under which the loop body reaches the injection at time \<open>t\<close>: neither
  of its two \<open>continue\<close> statements is taken.
\<close>

definition in_window :: "real \<Rightarrow> attack \<Rightarrow> bool" where
  "in_window t a =
     (\<not> t < start_time a \<and> \<not> (truthy (duration a) \<and> t > start_time a + the (duration a)))"

text \<open>The status writes of the loop body, on their own.\<close>

definition advance :: "real \<Rightarrow> attack \<Rightarrow> attack" where
  "advance t a =
     (if t < start_time a then a
      else if truthy (duration a) \<and> t > start_time a + the (duration a)
        then (if status a = ''active'' then a\<lparr>status := ''completed''\<rparr> else a)
      else (if status a = ''armed'' then a\<lparr>status := ''active''\<rparr> else a))"

text \<open>The target the injection writes: the entry \<open>"target_signal"\<close> of the parameters.\<close>

definition target_of :: "attack \<Rightarrow> string option" where
  "target_of a = (case params a ''target_signal'' of Some (PStr s) \<Rightarrow> Some s | _ \<Rightarrow> None)"

text \<open>One status write, and what a series of them can amount to.\<close>

definition status_step :: "string \<Rightarrow> string \<Rightarrow> bool" where
  "status_step s s' =
     (s' = s \<or> (s = ''armed'' \<and> s' = ''active'') \<or> (s = ''active'' \<and> s' = ''completed''))"

definition status_le :: "string \<Rightarrow> string \<Rightarrow> bool" where
  "status_le s s' =
     (s' = s \<or> (s = ''armed'' \<and> (s' = ''active'' \<or> s' = ''completed''))
      \<or> (s = ''active'' \<and> s' = ''completed''))"

text \<open>
  The index of the replay buffer as the specification words it:
  \<open>floor((t - start_time) / dt) mod len(buffer)\<close>.
\<close>

definition spec_replay_index :: "real \<Rightarrow> real \<Rightarrow> real \<Rightarrow> nat \<Rightarrow> nat" where
  "spec_replay_index t start dt n = nat (\<lfloor>(t - start) / dt\<rfloor> mod int n)"


text \<open>
  What one call may do to an entry of the registry: the key stays, the attack is left
  alone (the loop did not reach it) or takes the status writes of the body.
\<close>

definition entry_rel :: "real \<Rightarrow> string \<times> attack \<Rightarrow> string \<times> attack \<Rightarrow> bool" where
  "entry_rel t p q = (fst q = fst p \<and> (snd q = snd p \<or> snd q = advance t (snd p)))"


section \<open>Example data\<close>

text \<open>
  A false data injection on the signal \<open>x\<close>, registered for the window that starts at
  10 and lasts 20, and a snapshot of two signals.
\<close>

definition ex_params_fdi :: py_dict where
  "ex_params_fdi = [''target_signal'' \<mapsto> PStr ''x'', ''false_value'' \<mapsto> PFloat (17 / 2)]"

definition ex_service_fdi :: AttackService where
  "ex_service_fdi = register_attack new_service ''a1'' FALSE_DATA ''x'' 10 (Some 20) ex_params_fdi"

definition ex_signals :: signal_map where
  "ex_signals = [''x'' \<mapsto> 5, ''y'' \<mapsto> 7]"


text \<open>
  The replay of the specification's example, buffer \<open>[0.5, 0.52, 0.48]\<close>, from time 10
  on, and the ramp of the documentation: rate 0.1 from time 100 for 50 seconds.
\<close>

definition ex_buffer :: "real list" where
  "ex_buffer = [1 / 2, 13 / 25, 12 / 25]"

definition ex_service_replay :: AttackService where
  "ex_service_replay =
     register_attack new_service ''a2'' REPLAY ''x'' 10 None
       [''target_signal'' \<mapsto> PStr ''x'', ''replay_buffer'' \<mapsto> PList ex_buffer]"

definition ex_service_ramp :: AttackService where
  "ex_service_ramp =
     register_attack new_service ''a3'' RAMP ''temp'' 100 (Some 50)
       [''target_signal'' \<mapsto> PStr ''temp'', ''rate'' \<mapsto> PFloat (1 / 10)]"


text \<open>The statuses of one attack before the first call and after each call.\<close>

definition status_history :: "AttackService \<Rightarrow> inject_call list \<Rightarrow> string \<Rightarrow> string option list" where
  "status_history svc calls aid = map (\<lambda>s. status_of s aid) (service_history svc calls)"

text \<open>
  Calls at the times 15, 40 and 12, in this order, and the false data injection with a
  duration of zero.
\<close>

definition ex_calls :: "inject_call list" where
  "ex_calls = [(15, 1, ex_signals, \<lambda>_. 0), (40, 1, ex_signals, \<lambda>_. 0), (12, 1, ex_signals, \<lambda>_. 0)]"

definition ex_service_zero :: AttackService where
  "ex_service_zero = register_attack new_service ''a4'' FALSE_DATA ''x'' 10 (Some 0) ex_params_fdi"


text \<open>
  The required parameter of an attack type that the request's parameters lack, after
  the specification's table: dos has none.
\<close>

definition missing_required :: "AttackType \<Rightarrow> py_dict \<Rightarrow> bool" where
  "missing_required atype ps =
     (case atype of
        DOS \<Rightarrow> False
      | FALSE_DATA \<Rightarrow> ps ''false_value'' = None
      | REPLAY \<Rightarrow> ps ''replay_buffer'' = None
      | RAMP \<Rightarrow> ps ''rate'' = None
      | RANDOM_NOISE \<Rightarrow> ps ''noise_std'' = None)"

text \<open>
  A plant for the examples: the state is the level \<open>x\<close>, with \<open>dx/dt = u - 1/2\<close> for
  the inlet \<open>u\<close>, integrated by Euler steps; a proportional controller with setpoint
  7 and output in \<open>[0, 1]\<close> on the level it is shown. A second service injects the
  false value 9 where the first injects 8.5.
\<close>

definition ex_model :: "real SimulationModel" where
  "ex_model =
     \<lparr>components =
        \<lparr>initial_state = 5,
         derivatives = (\<lambda>t x control. (case control ''u'' of None \<Rightarrow> 0 | Some u \<Rightarrow> u) - 1 / 2),
         signals_of = (\<lambda>x. [''x'' \<mapsto> x])\<rparr>,
      solver = Euler,
      controller = \<lparr>Kp = 1, Ki = 0, Kd = 0, setpoint = 7,
                    controlled_variable = ''x'', manipulated_variable = ''u''\<rparr>\<rparr>"

definition ex_sim :: "real Simulator" where
  "ex_sim =
     \<lparr>sim_model = ex_model, sim_run_id = 1, sim_t = 15, sim_dt = 1 / 10, sim_state = 5,
      sim_controller = \<lparr>integral_term = 0, prev_error = 0, output_min = 0, output_max = 1\<rparr>\<rparr>"

definition ex_service_fdi9 :: AttackService where
  "ex_service_fdi9 =
     register_attack new_service ''a5'' FALSE_DATA ''x'' 10 (Some 20)
       [''target_signal'' \<mapsto> PStr ''x'', ''false_value'' \<mapsto> PFloat 9]"

definition ex_db :: database where
  "ex_db = \<lparr>run_owner = [1 \<mapsto> 7], attack_rows = []\<rparr>"

text \<open>
  Requests for run 1: a false data injection with a duration of zero, and a ramp
  without its rate.
\<close>

definition ex_request_zero :: AttackCreateRequest where
  "ex_request_zero =
     \<lparr>req_run_id = 1, req_attack_type = FALSE_DATA, req_target_signal = ''x'',
      req_start_time = 10, req_duration = Some 0,
      req_parameters = [''false_value'' \<mapsto> PFloat (17 / 2)]\<rparr>"

definition ex_request_norate :: AttackCreateRequest where
  "ex_request_norate =
     \<lparr>req_run_id = 1, req_attack_type = RAMP, req_target_signal = ''x'',
      req_start_time = 10, req_duration = Some 20, req_parameters = Map.empty\<rparr>"


text \<open>
  The window of the documentation's timelines, closed at both ends:
  \<open>start_time \<le> t\<close>, and \<open>t \<le> start_time + duration\<close> when there is a duration.
\<close>

definition within_window :: "real \<Rightarrow> attack \<Rightarrow> bool" where
  "within_window t a =
     (start_time a \<le> t \<and> (case duration a of None \<Rightarrow> True | Some d \<Rightarrow> t \<le> start_time a + d))"




text \<open>
  Registries with two attacks on one signal: the false data injection followed by the
  replay, the replay followed by the false data injection, the replay followed by a
  ramp on a signal \<open>z\<close> that the snapshot lacks, and the false data injection followed by
  a ramp of rate 2.
\<close>

definition ex_service_fdi_replay :: AttackService where
  "ex_service_fdi_replay =
     register_attack ex_service_fdi ''a2'' REPLAY ''x'' 10 None
       [''target_signal'' \<mapsto> PStr ''x'', ''replay_buffer'' \<mapsto> PList ex_buffer]"

definition ex_service_replay_fdi :: AttackService where
  "ex_service_replay_fdi =
     register_attack ex_service_replay ''a1'' FALSE_DATA ''x'' 10 (Some 20) ex_params_fdi"

definition ex_service_replay_ramp :: AttackService where
  "ex_service_replay_ramp =
     register_attack ex_service_replay ''a8'' RAMP ''z'' 10 None
       [''target_signal'' \<mapsto> PStr ''z'', ''rate'' \<mapsto> PFloat 1]"

definition ex_service_fdi_ramp :: AttackService where
  "ex_service_fdi_ramp =
     register_attack ex_service_fdi ''a7'' RAMP ''x'' 10 (Some 20)
       [''target_signal'' \<mapsto> PStr ''x'', ''rate'' \<mapsto> PFloat 2]"

text \<open>
  The ramp of the documentation followed by a denial of service on the same signal
  from 100 for 100 seconds.
\<close>

definition ex_service_ramp_dos :: AttackService where
  "ex_service_ramp_dos =
     register_attack ex_service_ramp ''a6'' DOS ''temp'' 100 (Some 100)
       [''target_signal'' \<mapsto> PStr ''temp'']"


section \<open>Facts about the loop of \<open>inject_attacks\<close>\<close>

lemma advance_fields [simp]:
  "attack_id (advance t a) = attack_id a"
  "attack_type (advance t a) = attack_type a"
  "target_signal (advance t a) = target_signal a"
  "start_time (advance t a) = start_time a"
  "duration (advance t a) = duration a"
  "params (advance t a) = params a"
  by (simp_all add: advance_def)

lemma inject_one_eq:
  "inject_one t sigs rng aid a acc =
     (advance t a, if in_window t a then apply_attack t sigs (rng aid) (advance t a) acc else Inr acc)"
  by (simp add: inject_one_def advance_def in_window_def Let_def)

lemma target_read:
  "bind_err (getitem (params a) ''target_signal'') as_str = Inr tg \<longleftrightarrow> target_of a = Some tg"
  by (auto simp add: bind_err_def getitem_def as_str_def target_of_def split: option.splits py_value.splits)


lemma bind_err_InrE:
  assumes "bind_err m f = Inr y"
  obtains x where "m = Inr x" and "f x = Inr y"
  using assms by (cases m) (simp_all add: bind_err_def)


lemma target_bindE:
  assumes "bind_err (bind_err (getitem (params a) ''target_signal'') as_str) f = Inr y"
  obtains tg where "target_of a = Some tg" and "f tg = Inr y"
proof -
  from assms obtain tg where "bind_err (getitem (params a) ''target_signal'') as_str = Inr tg"
    and "f tg = Inr y"
    by (rule bind_err_InrE)
  then show thesis using that by (simp add: target_read)
qed

lemma apply_attack_writes:
  assumes "apply_attack t sigs nz a acc = Inr acc'"
  shows "\<exists>tg v. target_of a = Some tg \<and> acc' = acc(tg \<mapsto> v)"
proof (cases "attack_type a")
  case DOS
  with assms show ?thesis
    apply (simp add: apply_attack_def)
    apply (erule target_bindE)
    apply (auto elim!: bind_err_InrE)
    done
next
  case FALSE_DATA
  with assms show ?thesis
    apply (simp add: apply_attack_def)
    apply (erule target_bindE)
    apply (auto elim!: bind_err_InrE)
    done
next
  case REPLAY
  with assms show ?thesis
    apply (simp add: apply_attack_def)
    apply (erule target_bindE)
    apply (auto simp add: Let_def elim!: bind_err_InrE split: if_splits)
    done
next
  case RAMP
  with assms show ?thesis
    apply (simp add: apply_attack_def)
    apply (erule target_bindE)
    apply (auto simp add: Let_def elim!: bind_err_InrE)
    done
next
  case RANDOM_NOISE
  with assms show ?thesis
    apply (simp add: apply_attack_def)
    apply (erule target_bindE)
    apply (auto elim!: bind_err_InrE split: if_splits)
    done
qed

lemma apply_attack_frame:
  "apply_attack t sigs nz a acc = Inr acc' \<Longrightarrow> target_of a \<noteq> Some s \<Longrightarrow> acc' s = acc s"
  by (drule apply_attack_writes) auto

lemma target_of_advance [simp]: "target_of (advance t a) = target_of a"
  by (simp add: target_of_def)

lemma inject_loop_frame:
  "inject_loop t sigs rng reg acc = (reg', Inr obs) \<Longrightarrow>
   (\<forall>(k, a) \<in> set reg. in_window t a \<longrightarrow> target_of a \<noteq> Some s) \<Longrightarrow> obs s = acc s"
proof (induction reg arbitrary: acc reg')
  case Nil
  then show ?case by simp
next
  case (Cons p reg)
  obtain k a where p: "p = (k, a)" by (cases p)
  show ?case
  proof (cases "in_window t a")
    case True
    with Cons.prems p obtain acc1 rest' where
      a1: "apply_attack t sigs (rng k) (advance t a) acc = Inr acc1"
      and r: "inject_loop t sigs rng reg acc1 = (rest', Inr obs)"
      by (auto simp add: inject_one_eq split: sum.splits prod.splits)
    from Cons.prems p True have "target_of a \<noteq> Some s" by auto
    with a1 have "acc1 s = acc s" using apply_attack_frame by fastforce
    moreover from Cons.IH [OF r] Cons.prems(2) have "obs s = acc1 s" by auto
    ultimately show ?thesis by simp
  next
    case False
    with Cons.prems p obtain rest' where
      r: "inject_loop t sigs rng reg acc = (rest', Inr obs)"
      by (auto simp add: inject_one_eq split: sum.splits prod.splits)
    from Cons.IH [OF r] Cons.prems(2) show ?thesis by auto
  qed
qed

lemma inject_loop_success:
  "inject_loop t sigs rng reg acc = (reg', Inr obs) \<Longrightarrow>
   reg' = map (\<lambda>(k, a). (k, advance t a)) reg"
proof (induction reg arbitrary: acc reg')
  case Nil
  then show ?case by simp
next
  case (Cons p reg)
  obtain k a where p: "p = (k, a)" by (cases p)
  from Cons.prems p obtain acc1 rest' where
      r: "inject_loop t sigs rng reg acc1 = (rest', Inr obs)" and "reg' = (k, advance t a) # rest'"
    by (auto simp add: inject_one_eq split: sum.splits prod.splits if_splits)
  with Cons.IH [OF r] p show ?case by simp
qed

lemma inject_loop_rel:
  "list_all2 (entry_rel t) reg (fst (inject_loop t sigs rng reg acc))"
proof (induction reg arbitrary: acc)
  case Nil
  then show ?case by simp
next
  case (Cons p reg)
  obtain k a where p: "p = (k, a)" by (cases p)
  obtain r where one: "inject_one t sigs rng k a acc = (advance t a, r)"
    by (simp add: inject_one_eq)
  have hd: "entry_rel t (k, a) (k, advance t a)"
    by (simp add: entry_rel_def)
  show ?case
  proof (cases r)
    case (Inl e)
    have "list_all2 (entry_rel t) reg reg"
      by (simp add: list_all2_refl entry_rel_def)
    with hd show ?thesis by (simp add: p one Inl)
  next
    case (Inr acc1)
    obtain rest' r' where rest: "inject_loop t sigs rng reg acc1 = (rest', r')"
      by (cases "inject_loop t sigs rng reg acc1")
    from Cons.IH [of acc1] hd show ?thesis
      by (simp add: p one Inr rest)
  qed
qed


lemmas ex_defs = ex_params_fdi_def ex_service_fdi_def ex_signals_def register_attack_def new_service_def

lemmas eval_defs = inject_attacks_def inject_one_def apply_attack_def truthy_def bind_err_def
  getitem_def get_default_def as_float_def as_str_def as_list_def signal_at_def py_int_def Let_def

lemma ex_fdi_15:
  "inject_attacks ex_service_fdi 15 1 ex_signals (\<lambda>_. 0) =
     (Inr (ex_signals(''x'' \<mapsto> 17 / 2)),
      \<lparr>active_attacks = [(''a1'', \<lparr>attack_id = ''a1'', attack_type = FALSE_DATA, target_signal = ''x'',
          start_time = 10, duration = Some 20, params = ex_params_fdi, status = ''active''\<rparr>)]\<rparr>)"
  by (simp add: ex_defs eval_defs)


lemma inject_attacks_success:
  assumes "inject_attacks svc t run_id signals rng = (Inr observed, svc')"
  shows "active_attacks svc' = map (\<lambda>(k, a). (k, advance t a)) (active_attacks svc)"
proof -
  from assms obtain reg' where
    l: "inject_loop t signals rng (active_attacks svc) signals = (reg', Inr observed)"
    and "svc' = svc\<lparr>active_attacks := reg'\<rparr>"
    by (auto simp add: inject_attacks_def split: prod.splits)
  with inject_loop_success [OF l] show ?thesis by simp
qed

lemma map_of_advance:
  "map_of (map (\<lambda>(k, a). (k, advance t a)) reg) aid = map_option (advance t) (map_of reg aid)"
  by (simp add: map_of_map)

lemma advance_status:
  assumes "duration a = Some d" "d \<noteq> 0"
  shows "t < start_time a \<Longrightarrow> status (advance t a) = status a"
    and "start_time a \<le> t \<Longrightarrow> t \<le> start_time a + d \<Longrightarrow>
           status (advance t a) = (if status a = ''armed'' then ''active'' else status a)"
    and "start_time a \<le> t \<Longrightarrow> start_time a + d < t \<Longrightarrow>
           status (advance t a) = (if status a = ''active'' then ''completed'' else status a)"
  using assms by (auto simp add: advance_def truthy_def)

lemma in_window_closed:
  assumes "duration a = Some d" "d \<noteq> 0"
  shows "in_window t a \<longleftrightarrow> start_time a \<le> t \<and> t \<le> start_time a + d"
  using assms by (auto simp add: in_window_def truthy_def)

lemma ex_fdi_30:
  "inject_attacks ex_service_fdi 30 1 ex_signals (\<lambda>_. 0) =
     (Inr (ex_signals(''x'' \<mapsto> 17 / 2)),
      \<lparr>active_attacks = [(''a1'', \<lparr>attack_id = ''a1'', attack_type = FALSE_DATA, target_signal = ''x'',
          start_time = 10, duration = Some 20, params = ex_params_fdi, status = ''active''\<rparr>)]\<rparr>)"
  by (simp add: ex_defs eval_defs)

lemma ex_fdi_31:
  "inject_attacks ex_service_fdi 31 1 ex_signals (\<lambda>_. 0) = (Inr ex_signals, ex_service_fdi)"
  by (simp add: ex_defs eval_defs)


section \<open>The window of an attack and its status\<close>

text \<open>
  Claim C1, as amended. The claim has the window half open: completed, and no
  transform, from \<open>t = start_time + duration\<close> on. The loop body tests
  \<open>t > start + duration\<close>, so the end point belongs to the window, and it writes
  \<open>completed\<close> only over \<open>active\<close>. For an attack with a finite duration other than
  zero and a call of \<open>inject_attacks\<close> at time \<open>t\<close> that returns:
  for \<open>t < start_time\<close> the status stays as it was (armed for a new attack);
  for \<open>start_time \<le> t \<le> start_time + duration\<close> an armed or active attack is active
  after the call and its transform is applied, also at \<open>t = start_time + duration\<close>;
  for \<open>t > start_time + duration\<close> (and \<open>t \<ge> start_time\<close>) an active attack becomes completed, any
  other status stays (an attack still armed stays armed), and no transform is applied.
\<close>

theorem window_status:
  assumes "map_of (active_attacks svc) aid = Some a"
    and "duration a = Some d" and "d \<noteq> 0"
    and "inject_attacks svc t run_id signals rng = (Inr observed, svc')"
  shows "\<exists>a'. map_of (active_attacks svc') aid = Some a' \<and>
           (t < start_time a \<longrightarrow> status a' = status a) \<and>
           (start_time a \<le> t \<and> t \<le> start_time a + d \<longrightarrow>
              status a' = (if status a = ''armed'' then ''active'' else status a)) \<and>
           (start_time a \<le> t \<and> start_time a + d < t \<longrightarrow>
              status a' = (if status a = ''active'' then ''completed'' else status a)) \<and>
           inject_one t signals rng aid a attacked =
             (a', if start_time a \<le> t \<and> t \<le> start_time a + d
                  then apply_attack t signals (rng aid) a' attacked else Inr attacked)"
proof -
  have "map_of (active_attacks svc') aid = Some (advance t a)"
    by (simp add: inject_attacks_success [OF assms(4)] map_of_advance assms(1))
  moreover have "inject_one t signals rng aid a attacked =
      (advance t a, if start_time a \<le> t \<and> t \<le> start_time a + d
                    then apply_attack t signals (rng aid) (advance t a) attacked else Inr attacked)"
    by (simp add: inject_one_eq in_window_closed [OF assms(2,3)])
  ultimately show ?thesis
    using advance_status [OF assms(2,3), of t] by (intro exI [of _ "advance t a"]) simp
qed


text \<open>
  The claim as stated fails at the end of the window: the attack registered with
  \<open>start_time = 10\<close> and \<open>duration = 20\<close> is active at \<open>t = 30\<close> and the signal \<open>x\<close>
  is replaced by the false value; and a new attack first seen at \<open>t = 31\<close> is still
  armed after the call.
\<close>

theorem window_status_counterexample:
  "status_of (snd (inject_attacks ex_service_fdi 30 1 ex_signals (\<lambda>_. 0))) ''a1'' = Some ''active''
   \<and> fst (inject_attacks ex_service_fdi 30 1 ex_signals (\<lambda>_. 0)) = Inr (ex_signals(''x'' \<mapsto> 17 / 2))
   \<and> ex_signals ''x'' = Some 5
   \<and> status_of (snd (inject_attacks ex_service_fdi 31 1 ex_signals (\<lambda>_. 0))) ''a1'' = Some ''armed''"
  by (simp add: ex_fdi_30 ex_fdi_31 status_of_def) (simp add: ex_defs)

theorem window_status_witness:
  "map_of (active_attacks ex_service_fdi) ''a1'' =
     Some \<lparr>attack_id = ''a1'', attack_type = FALSE_DATA, target_signal = ''x'',
          start_time = 10, duration = Some 20, params = ex_params_fdi, status = ''armed''\<rparr>
   \<and> (20::real) \<noteq> 0
   \<and> fst (inject_attacks ex_service_fdi 30 1 ex_signals (\<lambda>_. 0)) = Inr (ex_signals(''x'' \<mapsto> 17 / 2))
   \<and> status_of (snd (inject_attacks ex_service_fdi 30 1 ex_signals (\<lambda>_. 0))) ''a1'' = Some ''active''"
proof -
  let ?a = "\<lparr>attack_id = ''a1'', attack_type = FALSE_DATA, target_signal = ''x'',
          start_time = 10, duration = Some 20, params = ex_params_fdi, status = ''armed''\<rparr>"
  have h1: "map_of (active_attacks ex_service_fdi) ''a1'' = Some ?a"
    by (simp add: ex_service_fdi_def register_attack_def new_service_def)
  have h2: "duration ?a = Some 20" by simp
  have h3: "(20::real) \<noteq> 0" by simp
  from window_status [OF h1 h2 h3 ex_fdi_30, of Map.empty]
  obtain a' where "map_of (active_attacks (snd (inject_attacks ex_service_fdi 30 1 ex_signals (\<lambda>_. 0)))) ''a1'' = Some a'"
    and "status a' = ''active''"
    by (auto simp add: ex_fdi_30)
  then have "status_of (snd (inject_attacks ex_service_fdi 30 1 ex_signals (\<lambda>_. 0))) ''a1'' = Some ''active''"
    by (simp add: status_of_def)
  with h1 h3 show ?thesis by (simp add: ex_fdi_30)
qed

section \<open>What an injecting attack writes\<close>

lemma inject_loop_last_write:
  assumes "inject_loop t sigs rng (xs @ (k, a) # ys) acc = (reg', Inr obs)"
    and "in_window t a"
    and "\<forall>(k', b) \<in> set ys. in_window t b \<longrightarrow> target_of b \<noteq> Some tg"
  shows "\<exists>acc1 acc2. apply_attack t sigs (rng k) (advance t a) acc1 = Inr acc2 \<and> obs tg = acc2 tg"
  using assms(1)
proof (induction xs arbitrary: acc reg')
  case Nil
  with assms(2) obtain acc2 rest' where
    a: "apply_attack t sigs (rng k) (advance t a) acc = Inr acc2"
    and r: "inject_loop t sigs rng ys acc2 = (rest', Inr obs)"
    by (auto simp add: inject_one_eq split: sum.splits prod.splits)
  from inject_loop_frame [OF r assms(3)] a show ?case by blast
next
  case (Cons p xs)
  obtain k0 a0 where p: "p = (k0, a0)" by (cases p)
  from Cons.prems p obtain acc' rest' where
    "inject_loop t sigs rng (xs @ (k, a) # ys) acc' = (rest', Inr obs)"
    by (auto simp add: inject_one_eq split: sum.splits prod.splits if_splits)
  from Cons.IH [OF this] show ?case .
qed

lemma apply_attack_replay:
  assumes "attack_type a = REPLAY" and "target_of a = Some tg"
    and "params a ''replay_buffer'' = Some (PList buffer)" and "buffer \<noteq> []"
  shows "apply_attack t sigs nz a acc =
           Inr (acc(tg \<mapsto> buffer ! nat (py_int (t - start_time a) mod int (length buffer))))"
proof -
  from assms(2) have "bind_err (getitem (params a) ''target_signal'') as_str = Inr tg"
    by (simp add: target_read)
  with assms(1,3,4) show ?thesis
    by (simp add: apply_attack_def bind_err_def getitem_def as_list_def Let_def)
qed

lemma apply_attack_ramp:
  assumes "attack_type a = RAMP" and "target_of a = Some tg"
    and "params a ''rate'' = Some (PFloat r)" and "sigs tg = Some v"
  shows "apply_attack t sigs nz a acc = Inr (acc(tg \<mapsto> v + r * (t - start_time a)))"
proof -
  from assms(2) have "bind_err (getitem (params a) ''target_signal'') as_str = Inr tg"
    by (simp add: target_read)
  with assms(1,3,4) show ?thesis
    by (simp add: apply_attack_def bind_err_def getitem_def as_float_def signal_at_def Let_def)
qed

lemma ex_replay_half:
  "inject_attacks ex_service_replay (21 / 2) 1 ex_signals (\<lambda>_. 0) =
     (Inr (ex_signals(''x'' \<mapsto> 1 / 2)),
      \<lparr>active_attacks = [(''a2'', \<lparr>attack_id = ''a2'', attack_type = REPLAY, target_signal = ''x'',
          start_time = 10, duration = None,
          params = [''target_signal'' \<mapsto> PStr ''x'', ''replay_buffer'' \<mapsto> PList ex_buffer],
          status = ''active''\<rparr>)]\<rparr>)"
  by (simp add: ex_service_replay_def ex_buffer_def ex_defs eval_defs)

lemma ex_ramp_150:
  "inject_attacks ex_service_ramp 150 1 [''temp'' \<mapsto> 26] (\<lambda>_. 0) =
     (Inr [''temp'' \<mapsto> 31],
      \<lparr>active_attacks = [(''a3'', \<lparr>attack_id = ''a3'', attack_type = RAMP, target_signal = ''temp'',
          start_time = 100, duration = Some 50,
          params = [''target_signal'' \<mapsto> PStr ''temp'', ''rate'' \<mapsto> PFloat (1 / 10)],
          status = ''active''\<rparr>)]\<rparr>)"
  by (simp add: ex_service_ramp_def ex_defs eval_defs)


section \<open>The life cycle of the status\<close>

lemma advance_status_step: "status_step (status a) (status (advance t a))"
  by (simp add: advance_def status_step_def)

lemma inject_attacks_rel:
  "list_all2 (entry_rel t) (active_attacks svc)
     (active_attacks (snd (inject_attacks svc t run_id signals rng)))"
  using inject_loop_rel [of t "active_attacks svc" signals rng signals]
  by (cases "inject_loop t signals rng (active_attacks svc) signals") (simp add: inject_attacks_def)

lemma map_of_rel:
  assumes "list_all2 (\<lambda>p q. fst q = fst p \<and> R (snd p) (snd q)) xs ys"
  shows "rel_option R (map_of xs k) (map_of ys k)"
  using assms by (induction rule: list_all2_induct) auto

lemma inject_attacks_entry:
  "rel_option (\<lambda>a a'. a' = a \<or> a' = advance t a)
     (map_of (active_attacks svc) aid)
     (map_of (active_attacks (snd (inject_attacks svc t run_id signals rng))) aid)"
proof (rule map_of_rel)
  show "list_all2 (\<lambda>p q. fst q = fst p \<and> (snd q = snd p \<or> snd q = advance t (snd p)))
     (active_attacks svc) (active_attacks (snd (inject_attacks svc t run_id signals rng)))"
    using inject_attacks_rel [of t svc run_id signals rng]
    by (simp add: entry_rel_def [abs_def])
qed

lemma inject_attacks_status_step:
  "rel_option status_step (status_of svc aid)
     (status_of (snd (inject_attacks svc t run_id signals rng)) aid)"
proof -
  have "rel_option (\<lambda>a a'. status_step (status a) (status a'))
     (map_of (active_attacks svc) aid)
     (map_of (active_attacks (snd (inject_attacks svc t run_id signals rng))) aid)"
    using inject_attacks_entry [of t svc aid run_id signals rng]
    by (rule option.rel_mono_strong) (use advance_status_step in \<open>auto simp add: status_step_def\<close>)
  then show ?thesis
    by (simp add: status_of_def option.rel_map)
qed

lemma status_history_Cons:
  "status_history svc ((t, run_id, signals, rng) # cs) aid =
     status_of svc aid # status_history (snd (inject_attacks svc t run_id signals rng)) cs aid"
  by (simp add: status_history_def)

lemma status_history_hd: "\<exists>rest. status_history svc calls aid = status_of svc aid # rest"
  by (cases calls) (auto simp add: status_history_def)

lemma status_history_steps:
  "successively (rel_option status_step) (status_history svc calls aid)"
proof (induction calls arbitrary: svc)
  case Nil
  then show ?case by (simp add: status_history_def)
next
  case (Cons c cs)
  obtain t run_id signals rng where c: "c = (t, run_id, signals, rng)" by (cases c)
  let ?svc' = "snd (inject_attacks svc t run_id signals rng)"
  obtain rest where r: "status_history ?svc' cs aid = status_of ?svc' aid # rest"
    using status_history_hd by blast
  from Cons.IH [of ?svc'] inject_attacks_status_step [of svc aid t run_id signals rng]
  show ?case by (simp add: c status_history_Cons r)
qed

lemma status_step_le: "status_step s s' \<Longrightarrow> status_le s s'"
  by (auto simp add: status_step_def status_le_def)

lemma status_le_trans: "status_le a b \<Longrightarrow> status_le b c \<Longrightarrow> status_le a c"
  by (auto simp add: status_le_def)

lemma status_le_refl: "status_le a a"
  by (simp add: status_le_def)

lemma status_history_le:
  assumes "i \<le> j" and "j < length (status_history svc calls aid)"
  shows "rel_option status_le (status_history svc calls aid ! i) (status_history svc calls aid ! j)"
proof -
  let ?H = "status_history svc calls aid"
  have tr: "transp (rel_option status_le)"
    by (rule transpI) (auto simp add: option.rel_sel intro: status_le_trans)
  have "successively (rel_option status_le) ?H"
    using status_history_steps [of svc calls aid]
    by (rule successively_mono) (auto simp add: option.rel_sel intro: status_step_le)
  with tr have s: "sorted_wrt (rel_option status_le) ?H"
    by (simp add: successively_conv_sorted_wrt)
  show ?thesis
  proof (cases "i = j")
    case True
    then show ?thesis by (simp add: option.rel_sel status_le_refl)
  next
    case False
    with assms have "i < j" by simp
    with s assms(2) show ?thesis by (simp add: sorted_wrt_iff_nth_less)
  qed
qed

lemma ex_history:
  "status_history ex_service_fdi ex_calls ''a1'' =
     [Some ''armed'', Some ''active'', Some ''completed'', Some ''completed'']"
  by (simp add: status_history_def ex_calls_def status_of_def ex_defs eval_defs)


text \<open>
  Claim C6. Over every sequence of calls of \<open>inject_attacks\<close>, at arbitrary times (not
  necessarily increasing) and also when a call raises, the status of every attack
  changes only by the writes armed to active and active to completed: each call leaves
  it or makes one of these two steps. Hence an active attack is never armed again, and
  a completed attack stays completed.
\<close>

theorem status_lifecycle:
  "successively (rel_option status_step) (status_history svc calls aid)
   \<and> (\<forall>i j. i \<le> j \<and> j < length (status_history svc calls aid) \<longrightarrow>
        (status_history svc calls aid ! i = Some ''active'' \<longrightarrow>
           status_history svc calls aid ! j = Some ''active''
           \<or> status_history svc calls aid ! j = Some ''completed'')
        \<and> (status_history svc calls aid ! i = Some ''completed'' \<longrightarrow>
           status_history svc calls aid ! j = Some ''completed''))"
proof (intro conjI allI impI)
  show "successively (rel_option status_step) (status_history svc calls aid)"
    by (rule status_history_steps)
next
  fix i j
  assume ij: "i \<le> j \<and> j < length (status_history svc calls aid)"
  then have le: "rel_option status_le (status_history svc calls aid ! i) (status_history svc calls aid ! j)"
    by (simp add: status_history_le)
  {
    assume "status_history svc calls aid ! i = Some ''active''"
    with le show "status_history svc calls aid ! j = Some ''active''
           \<or> status_history svc calls aid ! j = Some ''completed''"
      by (cases "status_history svc calls aid ! j") (auto simp add: status_le_def)
  }
  {
    assume "status_history svc calls aid ! i = Some ''completed''"
    with le show "status_history svc calls aid ! j = Some ''completed''"
      by (cases "status_history svc calls aid ! j") (auto simp add: status_le_def)
  }
qed


theorem status_lifecycle_witness:
  "status_history ex_service_fdi ex_calls ''a1'' ! 1 = Some ''active''
   \<and> status_history ex_service_fdi ex_calls ''a1'' ! 2 = Some ''completed''
   \<and> status_history ex_service_fdi ex_calls ''a1'' ! 3 = Some ''completed''"
proof -
  have h: "(2::nat) \<le> 3 \<and> 3 < length (status_history ex_service_fdi ex_calls ''a1'')"
    by (simp add: ex_history)
  have c: "status_history ex_service_fdi ex_calls ''a1'' ! 2 = Some ''completed''"
    by (simp add: ex_history)
  from status_lifecycle [of ex_service_fdi ex_calls "''a1''"] h c
  have "status_history ex_service_fdi ex_calls ''a1'' ! 3 = Some ''completed''"
    by blast
  with c show ?thesis by (simp add: ex_history)
qed


section \<open>A window that no call falls into\<close>

text \<open>
  An armed attack with a finite duration other than zero that no call meets inside
  \<open>start_time \<le> t \<le> start_time + duration\<close> is left as it is by every call: the first
  \<open>continue\<close> skips it before the window, the second one after it, where only an
  active status is overwritten.
\<close>

lemma advance_outside:
  assumes "duration a = Some d" and "d \<noteq> 0" and "status a = ''armed''"
    and "\<not> (start_time a \<le> t \<and> t \<le> start_time a + d)"
  shows "advance t a = a" and "\<not> in_window t a"
  using assms by (auto simp add: advance_def in_window_def truthy_def)

lemma skipped_window_stays_armed:
  assumes "map_of (active_attacks svc) aid = Some a"
    and "duration a = Some d" and "d \<noteq> 0" and "status a = ''armed''"
    and "\<forall>(t, run_id, signals, rng) \<in> set calls. \<not> (start_time a \<le> t \<and> t \<le> start_time a + d)"
  shows "map_of (active_attacks (inject_calls svc calls)) aid = Some a"
  using assms(1,5)
proof (induction calls arbitrary: svc)
  case Nil
  then show ?case by simp
next
  case (Cons c cs)
  obtain t run_id signals rng where c: "c = (t, run_id, signals, rng)" by (cases c)
  with Cons.prems(2) have out: "\<not> (start_time a \<le> t \<and> t \<le> start_time a + d)" by simp
  have "map_of (active_attacks (snd (inject_attacks svc t run_id signals rng))) aid = Some a"
    using inject_attacks_entry [of t svc aid run_id signals rng] Cons.prems(1)
      advance_outside(1) [OF assms(2,3,4) out]
    by (auto simp add: option.rel_sel)
  from Cons.IH [OF this] Cons.prems(2) show ?case by (simp add: c)
qed


text \<open>
  Claim C10 at a duration of zero. The attack is registered with \<open>start_time = 10\<close> and
  \<open>duration = 0\<close>, and the only call is at \<open>t = 11\<close>, outside \<open>10 \<le> t \<le> 10 + 0\<close>. The
  claim has it armed for ever and its signal untouched. The test
  \<open>if duration and t > start + duration\<close> is false for a duration of zero, as it is for
  no duration: the call makes the attack active and replaces the signal \<open>x\<close>.
\<close>

theorem zero_duration_injects:
  "inject_attacks ex_service_zero 11 1 ex_signals (\<lambda>_. 0) =
     (Inr (ex_signals(''x'' \<mapsto> 17 / 2)),
      \<lparr>active_attacks = [(''a4'', \<lparr>attack_id = ''a4'', attack_type = FALSE_DATA, target_signal = ''x'',
          start_time = 10, duration = Some 0, params = ex_params_fdi, status = ''active''\<rparr>)]\<rparr>)"
  by (simp add: ex_service_zero_def ex_defs eval_defs)


section \<open>Removal is for armed attacks\<close>

lemma same_keys:
  assumes "list_all2 (\<lambda>p q. fst q = fst p) xs ys"
  shows "map fst ys = map fst xs"
  using assms by (induction rule: list_all2_induct) auto

lemma inject_attacks_keys:
  "map fst (active_attacks (snd (inject_attacks svc t run_id signals rng))) =
     map fst (active_attacks svc)"
proof (rule same_keys)
  show "list_all2 (\<lambda>p q. fst q = fst p) (active_attacks svc)
          (active_attacks (snd (inject_attacks svc t run_id signals rng)))"
    using inject_attacks_rel [of t svc run_id signals rng]
    by (rule list_all2_mono) (simp add: entry_rel_def)
qed

lemma inject_calls_keys:
  "map fst (active_attacks (inject_calls svc calls)) = map fst (active_attacks svc)"
proof (induction calls arbitrary: svc)
  case Nil
  then show ?case by simp
next
  case (Cons c cs)
  obtain t run_id signals rng where c: "c = (t, run_id, signals, rng)" by (cases c)
  show ?case by (simp add: c Cons.IH inject_attacks_keys)
qed

lemma status_of_absent:
  "aid \<notin> set (map fst (active_attacks svc)) \<Longrightarrow> status_of svc aid = None"
  by (simp add: status_of_def map_of_eq_None_iff)

lemma ex_remove_armed: "remove_attack ex_service_fdi ''a1'' = (Inr (), new_service)"
  by (simp add: remove_attack_def ex_defs AList.delete_eq)


text \<open>
  Claim C7. Removing a registered attack succeeds if and only if its status is armed.
  A removal of an attack with any other status (active, completed) is rejected with a
  validation error and the service is unchanged. After the removal of an armed attack
  no sequence of calls of \<open>inject_attacks\<close> gives the identifier a status again, so
  the attack never becomes active.
\<close>

theorem remove_only_armed:
  assumes "map_of (active_attacks svc) aid = Some a"
  shows "((\<exists>svc'. remove_attack svc aid = (Inr (), svc')) \<longleftrightarrow> status a = ''armed'')
       \<and> (status a \<noteq> ''armed'' \<longrightarrow>
            (\<exists>msg. remove_attack svc aid = (Inl (ValidationError msg), svc)))
       \<and> (status a = ''armed'' \<longrightarrow>
            (\<forall>calls. status_of (inject_calls (snd (remove_attack svc aid)) calls) aid = None))"
proof -
  {
    fix calls
    assume "status a = ''armed''"
    with assms have "snd (remove_attack svc aid) = svc\<lparr>active_attacks := AList.delete aid (active_attacks svc)\<rparr>"
      by (simp add: remove_attack_def)
    then have "aid \<notin> set (map fst (active_attacks (snd (remove_attack svc aid))))"
      by (simp add: delete_keys)
    then have "aid \<notin> set (map fst (active_attacks (inject_calls (snd (remove_attack svc aid)) calls)))"
      by (simp add: inject_calls_keys)
    then have "status_of (inject_calls (snd (remove_attack svc aid)) calls) aid = None"
      by (rule status_of_absent)
  }
  with assms show ?thesis
    by (auto simp add: remove_attack_def)
qed


theorem remove_only_armed_witness:
  "remove_attack ex_service_fdi ''a1'' = (Inr (), new_service)
   \<and> status_of (inject_calls (snd (remove_attack ex_service_fdi ''a1'')) ex_calls) ''a1'' = None
   \<and> (\<exists>msg. remove_attack (snd (inject_attacks ex_service_fdi 15 1 ex_signals (\<lambda>_. 0))) ''a1'' =
         (Inl (ValidationError msg), snd (inject_attacks ex_service_fdi 15 1 ex_signals (\<lambda>_. 0))))"
proof -
  let ?a = "\<lparr>attack_id = ''a1'', attack_type = FALSE_DATA, target_signal = ''x'',
          start_time = 10, duration = Some 20, params = ex_params_fdi, status = ''armed''\<rparr>"
  let ?svc = "snd (inject_attacks ex_service_fdi 15 1 ex_signals (\<lambda>_. 0))"
  have h1: "map_of (active_attacks ex_service_fdi) ''a1'' = Some ?a"
    by (simp add: ex_service_fdi_def register_attack_def new_service_def)
  have h2: "map_of (active_attacks ?svc) ''a1'' = Some (?a\<lparr>status := ''active''\<rparr>)"
    by (simp add: ex_fdi_15)
  from remove_only_armed [OF h1]
  have "status_of (inject_calls (snd (remove_attack ex_service_fdi ''a1'')) ex_calls) ''a1'' = None"
    by simp
  moreover from remove_only_armed [OF h2]
  have "\<exists>msg. remove_attack ?svc ''a1'' = (Inl (ValidationError msg), ?svc)"
    by simp
  ultimately show ?thesis by (simp add: ex_remove_armed)
qed

section \<open>The four stages of the Runge-Kutta step\<close>

text \<open>
  Claim C9. For every derivative function \<open>f\<close>, state \<open>y\<close>, time \<open>t\<close> and step \<open>dt\<close>,
  \<open>rk4_step\<close> returns \<open>y + (dt/6) * (k1 + 2*k2 + 2*k3 + k4)\<close> with \<open>k1 = f(t, y)\<close>,
  \<open>k2 = f(t + dt/2, y + (dt/2)*k1)\<close>, \<open>k3 = f(t + dt/2, y + (dt/2)*k2\<close>) and
  \<open>k4 = f(t + dt, y + dt*k3)\<close>, and it calls \<open>f\<close> exactly four times, at these
  arguments in this order.
\<close>

theorem rk4_step_formula:
  "(let k1 = f t y;
        k2 = f (t + dt / 2) (y + (dt / 2) *\<^sub>R k1);
        k3 = f (t + dt / 2) (y + (dt / 2) *\<^sub>R k2);
        k4 = f (t + dt) (y + dt *\<^sub>R k3)
    in rk4_step f y t dt = y + (dt / 6) *\<^sub>R (k1 + 2 *\<^sub>R k2 + 2 *\<^sub>R k3 + k4)
       \<and> rk4_step_logged f y t dt [] =
           (rk4_step f y t dt,
            [(t, y), (t + dt / 2, y + (dt / 2) *\<^sub>R k1),
             (t + dt / 2, y + (dt / 2) *\<^sub>R k2), (t + dt, y + dt *\<^sub>R k3)]))"
  by (simp add: rk4_step_def rk4_step_logged_def call_logged_def Let_def)


section \<open>Rejected registrations\<close>

lemma check_request_rejects:
  assumes "req_start_time raw < 0 \<or> (\<exists>d. req_duration raw = Some d \<and> d < 0)"
  shows "\<exists>e. check_request raw = Inl e"
  using assms by (auto simp add: check_request_def)

lemma check_request_same: "check_request raw = Inr request \<Longrightarrow> request = raw"
  by (simp add: check_request_def split: if_splits)

lemma create_attack_invalid:
  assumes "\<not> fst (validate (req_attack_type request)
            ([''target_signal'' \<mapsto> PStr (req_target_signal request)] ++ req_parameters request))"
  shows "\<exists>e. create_attack validate new_id request db user svc = (Inl e, db, svc)"
  using assms
  by (cases "validate (req_attack_type request)
            ([''target_signal'' \<mapsto> PStr (req_target_signal request)] ++ req_parameters request)")
     (simp add: create_attack_def Let_def split: option.splits)

lemma create_attack_failure:
  "fst (create_attack validate new_id request db user svc) = Inl e \<Longrightarrow>
   snd (create_attack validate new_id request db user svc) = (db, svc)"
  by (auto simp add: create_attack_def Let_def split: option.splits if_splits prod.splits)

lemma post_attack_failure:
  "fst (post_attack validate new_id raw db user svc) = Inl e \<Longrightarrow>
   snd (post_attack validate new_id raw db user svc) = (db, svc)"
  by (cases "check_request raw") (simp_all add: post_attack_def create_attack_failure)

lemma merged_params:
  "k \<noteq> ''target_signal'' \<Longrightarrow> ([''target_signal'' \<mapsto> v] ++ ps) k = ps k"
  by (simp add: map_add_def split: option.splits)

lemma missing_required_invalid:
  assumes "missing_required atype ps"
  shows "\<not> fst (validate_attack_params atype ([''target_signal'' \<mapsto> v] ++ ps))"
  using assms
  by (cases atype) (simp_all add: missing_required_def validate_attack_params_def merged_params)


text \<open>
  Claim C8, as amended. The claim has a duration of zero rejected. The schema admits
  it (\<open>duration: Optional[float] = Field(None, ge=0)\<close>), and no later check of the
  handler sees the duration. A request with a negative \<open>start_time\<close>, a negative
  duration (the duration must be absent or at least 0) or parameters that
  \<open>validate_attack_params\<close> refuses is rejected with an error; a request that lacks the
  required parameter of its attack type is among those refused; and whenever the
  registration fails, nothing is added to the database or to the service.
\<close>

theorem registration_rejects:
  "(req_start_time raw < 0 \<or> (\<exists>d. req_duration raw = Some d \<and> d < 0)
      \<or> \<not> fst (validate (req_attack_type raw)
               ([''target_signal'' \<mapsto> PStr (req_target_signal raw)] ++ req_parameters raw))
    \<longrightarrow> (\<exists>e. post_attack validate new_id raw db user svc = (Inl e, db, svc)))
   \<and> (missing_required (req_attack_type raw) (req_parameters raw)
    \<longrightarrow> \<not> fst (validate_attack_params (req_attack_type raw)
               ([''target_signal'' \<mapsto> PStr (req_target_signal raw)] ++ req_parameters raw)))
   \<and> (\<forall>e. fst (post_attack validate new_id raw db user svc) = Inl e
    \<longrightarrow> snd (post_attack validate new_id raw db user svc) = (db, svc))"
proof (intro conjI impI allI)
  assume bad: "req_start_time raw < 0 \<or> (\<exists>d. req_duration raw = Some d \<and> d < 0)
      \<or> \<not> fst (validate (req_attack_type raw)
               ([''target_signal'' \<mapsto> PStr (req_target_signal raw)] ++ req_parameters raw))"
  show "\<exists>e. post_attack validate new_id raw db user svc = (Inl e, db, svc)"
  proof (cases "check_request raw")
    case (Inl e)
    then show ?thesis by (simp add: post_attack_def)
  next
    case (Inr request)
    then have eq: "request = raw" by (rule check_request_same)
    from Inr check_request_rejects [of raw] bad
    have inv: "\<not> fst (validate (req_attack_type raw)
               ([''target_signal'' \<mapsto> PStr (req_target_signal raw)] ++ req_parameters raw))"
      by auto
    from create_attack_invalid [of validate raw new_id db user svc, OF inv] Inr eq show ?thesis
      by (simp add: post_attack_def)
  qed
next
  assume "missing_required (req_attack_type raw) (req_parameters raw)"
  then show "\<not> fst (validate_attack_params (req_attack_type raw)
               ([''target_signal'' \<mapsto> PStr (req_target_signal raw)] ++ req_parameters raw))"
    by (rule missing_required_invalid)
next
  fix e
  assume "fst (post_attack validate new_id raw db user svc) = Inl e"
  then show "snd (post_attack validate new_id raw db user svc) = (db, svc)"
    by (rule post_attack_failure)
qed


text \<open>
  A request with \<open>duration = 0\<close> and valid parameters is accepted: the row is stored
  and the attack is registered.
\<close>

theorem registration_rejects_counterexample:
  "req_duration ex_request_zero = Some 0
   \<and> post_attack validate_attack_params ''id1'' ex_request_zero ex_db 7 new_service =
       (Inr \<lparr>db_attack_id = ''id1'', simulation_run_id = 1, db_attack_type = FALSE_DATA,
             target_component = ''x'', trigger_time = 10, db_duration = Some 0,
             parameters = [''false_value'' \<mapsto> PFloat (17 / 2)], db_status = ''armed'',
             started_at = None, ended_at = None, success = None\<rparr>,
        \<lparr>run_owner = [1 \<mapsto> 7],
         attack_rows = [\<lparr>db_attack_id = ''id1'', simulation_run_id = 1, db_attack_type = FALSE_DATA,
             target_component = ''x'', trigger_time = 10, db_duration = Some 0,
             parameters = [''false_value'' \<mapsto> PFloat (17 / 2)], db_status = ''armed'',
             started_at = None, ended_at = None, success = None\<rparr>]\<rparr>,
        \<lparr>active_attacks = [(''id1'', \<lparr>attack_id = ''id1'', attack_type = FALSE_DATA,
             target_signal = ''x'', start_time = 10, duration = Some 0,
             params = [''target_signal'' \<mapsto> PStr ''x''] ++ [''false_value'' \<mapsto> PFloat (17 / 2)],
             status = ''armed''\<rparr>)]\<rparr>)"
  by (simp add: post_attack_def check_request_def create_attack_def validate_attack_params_def
        ex_request_zero_def ex_db_def register_attack_def new_service_def Let_def)

theorem registration_rejects_witness:
  "missing_required (req_attack_type ex_request_norate) (req_parameters ex_request_norate)
   \<and> post_attack validate_attack_params ''id2'' ex_request_norate ex_db 7 new_service =
       (Inl (HTTPException 400 ''rate is required''), ex_db, new_service)"
proof -
  have m: "missing_required (req_attack_type ex_request_norate) (req_parameters ex_request_norate)"
    by (simp add: missing_required_def ex_request_norate_def)
  from registration_rejects [of ex_request_norate validate_attack_params "''id2''" ex_db 7 new_service] m
  obtain e where e: "post_attack validate_attack_params ''id2'' ex_request_norate ex_db 7 new_service =
       (Inl e, ex_db, new_service)"
    by blast
  have "fst (post_attack validate_attack_params ''id2'' ex_request_norate ex_db 7 new_service) =
      Inl (HTTPException 400 ''rate is required'')"
    by (simp add: post_attack_def check_request_def create_attack_def validate_attack_params_def
        ex_request_norate_def ex_db_def Let_def)
  with e m show ?thesis by simp
qed

section \<open>The frame of an injection\<close>

text \<open>
  The registry keeps the target twice, as the field \<open>target_signal\<close> and inside the
  parameters; the injection reads the second. For an attack registered by
  \<open>create_attack\<close> the two agree, unless the request's own parameters carry an entry
  \<open>"target_signal"\<close>, which then takes the place of the request's field.
\<close>

lemma create_attack_target:
  assumes "create_attack validate new_id request db user svc = (Inr row, db', svc')"
    and "req_parameters request ''target_signal'' = None"
  shows "\<exists>a. map_of (active_attacks svc') new_id = Some a
           \<and> target_signal a = req_target_signal request
           \<and> target_of a = Some (req_target_signal request)"
proof -
  let ?ps = "[''target_signal'' \<mapsto> PStr (req_target_signal request)] ++ req_parameters request"
  let ?a = "\<lparr>attack_id = new_id, attack_type = req_attack_type request,
             target_signal = req_target_signal request, start_time = req_start_time request,
             duration = req_duration request, params = ?ps, status = ''armed''\<rparr>"
  from assms(1) have "svc' = register_attack svc new_id (req_attack_type request)
      (req_target_signal request) (req_start_time request) (req_duration request) ?ps"
    by (auto simp add: create_attack_def Let_def split: option.splits if_splits prod.splits)
  then have "map_of (active_attacks svc') new_id = Some ?a"
    by (simp add: register_attack_def update_conv')
  moreover from assms(2) have "target_of ?a = Some (req_target_signal request)"
    by (simp add: target_of_def map_add_def)
  ultimately show ?thesis by simp
qed

lemma in_window_iff:
  "in_window t a \<longleftrightarrow>
     start_time a \<le> t \<and> (\<forall>d. duration a = Some d \<and> d \<noteq> 0 \<longrightarrow> t \<le> start_time a + d)"
  by (cases "duration a") (auto simp add: in_window_def truthy_def)

lemma in_window_within: "duration a \<noteq> Some 0 \<Longrightarrow> in_window t a = within_window t a"
  by (cases "duration a") (auto simp add: in_window_def within_window_def truthy_def)

lemma target_of_iff: "target_of a = Some s \<longleftrightarrow> params a ''target_signal'' = Some (PStr s)"
  by (auto simp add: target_of_def split: option.splits py_value.splits)

lemma no_writer:
  assumes "\<forall>(aid, a) \<in> set reg.
             start_time a \<le> t \<and> (\<forall>d. duration a = Some d \<and> d \<noteq> 0 \<longrightarrow> t \<le> start_time a + d)
             \<longrightarrow> params a ''target_signal'' \<noteq> Some (PStr s)"
  shows "\<forall>(aid, a) \<in> set reg. in_window t a \<longrightarrow> target_of a \<noteq> Some s"
  using assms by (simp add: in_window_iff target_of_iff)









section \<open>Replay\<close>

lemma replay_pass:
  assumes "attack_type a = REPLAY" and "params a ''target_signal'' = Some (PStr tg)"
    and "params a ''replay_buffer'' = Some (PList buffer)" and "buffer \<noteq> []"
    and "start_time a \<le> t"
  shows "apply_attack t signals nz (advance t a) attacked =
           Inr (attacked(tg \<mapsto> buffer ! nat (\<lfloor>t - start_time a\<rfloor> mod int (length buffer))))"
proof -
  from assms(5) have "py_int (t - start_time a) = \<lfloor>t - start_time a\<rfloor>"
    by (simp add: py_int_def)
  with apply_attack_replay [of "advance t a" tg buffer t signals nz attacked] assms(1-4)
  show ?thesis by (simp add: target_of_iff)
qed

lemma ramp_pass:
  assumes "attack_type a = RAMP" and "params a ''target_signal'' = Some (PStr tg)"
    and "params a ''rate'' = Some (PFloat r)" and "signals tg = Some v"
  shows "apply_attack t signals nz (advance t a) attacked =
           Inr (attacked(tg \<mapsto> v + r * (t - start_time a)))"
  using apply_attack_ramp [of "advance t a" tg r signals v t nz attacked] assms
  by (simp add: target_of_iff)

lemma returned_last_write:
  assumes "inject_attacks svc t run_id signals rng = (Inr observed, svc')"
    and "active_attacks svc = xs @ (aid, a) # ys"
    and "in_window t a"
    and "\<forall>(k, b) \<in> set ys.
           start_time b \<le> t \<and> (\<forall>d. duration b = Some d \<and> d \<noteq> 0 \<longrightarrow> t \<le> start_time b + d)
           \<longrightarrow> params b ''target_signal'' \<noteq> Some (PStr tg)"
    and "\<And>acc. apply_attack t signals (rng aid) (advance t a) acc = Inr (acc(tg \<mapsto> w))"
  shows "observed tg = Some w"
proof -
  from assms(1,2) obtain reg' where
    "inject_loop t signals rng (xs @ (aid, a) # ys) signals = (reg', Inr observed)"
    by (auto simp add: inject_attacks_def split: prod.splits)
  from inject_loop_last_write [OF this assms(3) no_writer [OF assms(4)]] assms(5)
  show ?thesis by auto
qed

lemmas ex_two_defs = ex_service_fdi_replay_def ex_service_replay_fdi_def ex_service_replay_ramp_def
  ex_service_fdi_ramp_def ex_service_ramp_dos_def ex_service_replay_def ex_service_ramp_def
  ex_buffer_def

lemma ex_replay_fdi_11:
  "fst (inject_attacks ex_service_replay_fdi 11 1 ex_signals (\<lambda>_. 0)) =
     Inr (ex_signals(''x'' \<mapsto> 17 / 2))"
  by (simp add: ex_two_defs ex_defs eval_defs)

lemma ex_replay_ramp_11:
  "fst (inject_attacks ex_service_replay_ramp 11 1 ex_signals (\<lambda>_. 0)) = Inl (KeyError ''z'')"
  by (simp add: ex_two_defs ex_defs eval_defs)

lemma ex_fdi_replay_11:
  "fst (inject_attacks ex_service_fdi_replay 11 1 ex_signals (\<lambda>_. 0)) =
     Inr (ex_signals(''x'' \<mapsto> 13 / 25))"
  by (simp add: ex_two_defs ex_defs eval_defs)

lemma ex_fdi_ramp_12:
  "fst (inject_attacks ex_service_fdi_ramp 12 1 ex_signals (\<lambda>_. 0)) =
     Inr (ex_signals(''x'' \<mapsto> 9))"
  by (simp add: ex_two_defs ex_defs eval_defs)

lemma ex_ramp_dos_110:
  "fst (inject_attacks ex_service_ramp_dos 110 1 [''temp'' \<mapsto> 26] (\<lambda>_. 0)) = Inr [''temp'' \<mapsto> 0]"
  by (simp add: ex_two_defs ex_defs eval_defs)

lemma ex_ramp_dos_160:
  "fst (inject_attacks ex_service_ramp_dos 160 1 [''temp'' \<mapsto> 26] (\<lambda>_. 0)) = Inr [''temp'' \<mapsto> 0]"
  by (simp add: ex_two_defs ex_defs eval_defs)

text \<open>
  Claim C4, as amended. The claim indexes the buffer by \<open>floor((t - start_time) / dt)\<close>
  for every \<open>dt\<close>. The loop body has no \<open>dt\<close>: it computes \<open>int(elapsed) % len(buffer)\<close>
  with \<open>elapsed = t - start\<close>, the whole seconds since the start; and what it writes, a
  later attack on the same signal overwrites. For a replay attack with a non-empty
  buffer, with no duration or a finite one other than zero, and a time \<open>t\<close> in its
  window (\<open>start_time \<le> t\<close>, and \<open>t \<le> start_time + duration\<close> when there is a
  duration): the attack's pass of the loop sets
  \<open>observed[target_signal] = replay_buffer[floor(t - start_time) mod len(replay_buffer)]\<close>,
  whatever the real value, the step and the earlier attacks; every call of
  \<open>inject_attacks\<close> at \<open>t\<close> that returns hands this value out, unless an attack
  registered later, started (\<open>start_time \<le> t\<close>) and with its window not ended at \<open>t\<close>,
  has the same target; and the
  index is the claim's for \<open>dt = 1\<close>.
\<close>

theorem replay_observed:
  assumes "attack_type a = REPLAY" and "params a ''target_signal'' = Some (PStr tg)"
    and "params a ''replay_buffer'' = Some (PList buffer)" and "buffer \<noteq> []"
    and "duration a \<noteq> Some 0" and "within_window t a"
  shows "snd (inject_one t signals rng aid a attacked) =
           Inr (attacked(tg \<mapsto> buffer ! nat (\<lfloor>t - start_time a\<rfloor> mod int (length buffer))))
       \<and> (\<forall>svc xs ys run_id observed svc'.
             inject_attacks svc t run_id signals rng = (Inr observed, svc')
             \<and> active_attacks svc = xs @ (aid, a) # ys
             \<and> (\<forall>(k, b) \<in> set ys.
                  start_time b \<le> t \<and> (\<forall>d. duration b = Some d \<and> d \<noteq> 0 \<longrightarrow> t \<le> start_time b + d)
                  \<longrightarrow> params b ''target_signal'' \<noteq> Some (PStr tg))
             \<longrightarrow> observed tg =
                   Some (buffer ! nat (\<lfloor>t - start_time a\<rfloor> mod int (length buffer))))
       \<and> nat (\<lfloor>t - start_time a\<rfloor> mod int (length buffer)) =
           spec_replay_index t (start_time a) 1 (length buffer)"
proof -
  from assms(5,6) have w: "in_window t a" by (simp add: in_window_within)
  from assms(6) have st: "start_time a \<le> t" by (simp add: within_window_def)
  have ap: "apply_attack t signals nz (advance t a) acc =
      Inr (acc(tg \<mapsto> buffer ! nat (\<lfloor>t - start_time a\<rfloor> mod int (length buffer))))" for nz acc
    using assms(1-4) st by (rule replay_pass)
  have "snd (inject_one t signals rng aid a attacked) =
           Inr (attacked(tg \<mapsto> buffer ! nat (\<lfloor>t - start_time a\<rfloor> mod int (length buffer))))"
    by (simp add: inject_one_eq w ap)
  moreover have "observed tg = Some (buffer ! nat (\<lfloor>t - start_time a\<rfloor> mod int (length buffer)))"
    if "inject_attacks svc t run_id signals rng = (Inr observed, svc')"
      and "active_attacks svc = xs @ (aid, a) # ys"
      and "\<forall>(k, b) \<in> set ys.
                  start_time b \<le> t \<and> (\<forall>d. duration b = Some d \<and> d \<noteq> 0 \<longrightarrow> t \<le> start_time b + d)
                  \<longrightarrow> params b ''target_signal'' \<noteq> Some (PStr tg)"
    for svc xs ys run_id observed svc'
    using returned_last_write [OF that(1,2) w that(3)] ap by blast
  ultimately show ?thesis
    by (simp add: spec_replay_index_def) blast
qed

text \<open>
  With the buffer \<open>[0.5, 0.52, 0.48]\<close>, a start at 10 and \<open>dt = 0.5\<close>, the step at
  \<open>t = 10.5\<close> observes \<open>0.5\<close>, the entry 0, where the claim's index is 1, the entry
  \<open>0.52\<close>. With a false data injection registered after the replay on the same signal,
  the call at \<open>t = 11\<close> returns the false value 8.5, not the entry 1. With a ramp
  registered after the replay on a signal that the snapshot lacks, the call raises and
  returns nothing.
\<close>

theorem replay_observed_counterexample:
  "fst (inject_attacks ex_service_replay (21 / 2) 1 ex_signals (\<lambda>_. 0)) =
     Inr (ex_signals(''x'' \<mapsto> 1 / 2))
   \<and> ex_buffer ! spec_replay_index (21 / 2) 10 (1 / 2) (length ex_buffer) = 13 / 25
   \<and> fst (inject_attacks ex_service_replay_fdi 11 1 ex_signals (\<lambda>_. 0)) =
       Inr (ex_signals(''x'' \<mapsto> 17 / 2))
   \<and> ex_buffer ! spec_replay_index 11 10 1 (length ex_buffer) = 13 / 25
   \<and> fst (inject_attacks ex_service_replay_ramp 11 1 ex_signals (\<lambda>_. 0)) = Inl (KeyError ''z'')"
  by (simp add: ex_replay_half ex_replay_fdi_11 ex_replay_ramp_11)
     (simp add: spec_replay_index_def ex_buffer_def)

theorem replay_observed_witness:
  "ex_buffer \<noteq> []
   \<and> map fst (active_attacks ex_service_fdi_replay) = [''a1'', ''a2'']
   \<and> fst (inject_attacks ex_service_fdi_replay 11 1 ex_signals (\<lambda>_. 0)) =
       Inr (ex_signals(''x'' \<mapsto> 13 / 25))
   \<and> ex_buffer ! 1 = 13 / 25"
proof -
  let ?ps = "[''target_signal'' \<mapsto> PStr ''x'', ''replay_buffer'' \<mapsto> PList ex_buffer]"
  let ?a = "\<lparr>attack_id = ''a2'', attack_type = REPLAY, target_signal = ''x'',
          start_time = 10, duration = None, params = ?ps, status = ''armed''\<rparr>"
  let ?b = "\<lparr>attack_id = ''a1'', attack_type = FALSE_DATA, target_signal = ''x'',
          start_time = 10, duration = Some 20, params = ex_params_fdi, status = ''armed''\<rparr>"
  have h1: "attack_type ?a = REPLAY" by simp
  have h2: "params ?a ''target_signal'' = Some (PStr ''x'')" by simp
  have h3: "params ?a ''replay_buffer'' = Some (PList ex_buffer)" by simp
  have h4: "ex_buffer \<noteq> []" by (simp add: ex_buffer_def)
  have h5: "duration ?a \<noteq> Some 0" by simp
  have h6: "within_window 11 ?a" by (simp add: within_window_def)
  have r: "active_attacks ex_service_fdi_replay = [(''a1'', ?b)] @ (''a2'', ?a) # []"
    by (simp add: ex_service_fdi_replay_def ex_service_fdi_def register_attack_def new_service_def)
  have l: "\<forall>(k, b) \<in> set [].
             start_time b \<le> 11 \<and> (\<forall>d. duration b = Some d \<and> d \<noteq> 0 \<longrightarrow> 11 \<le> start_time b + d)
             \<longrightarrow> params b ''target_signal'' \<noteq> Some (PStr ''x'')"
    by simp
  have e: "inject_attacks ex_service_fdi_replay 11 1 ex_signals (\<lambda>_. 0) =
      (Inr (ex_signals(''x'' \<mapsto> 13 / 25)),
       snd (inject_attacks ex_service_fdi_replay 11 1 ex_signals (\<lambda>_. 0)))"
    using ex_fdi_replay_11 by (metis prod.collapse)
  from replay_observed [where a = "?a" and tg = "''x''" and buffer = ex_buffer and t = 11
      and signals = ex_signals and rng = "\<lambda>_. 0" and aid = "''a2''" and attacked = Map.empty,
      OF h1 h2 h3 h4 h5 h6] e r l
  have "(ex_signals(''x'' \<mapsto> 13 / 25)) ''x'' =
      Some (ex_buffer ! nat (\<lfloor>11 - start_time ?a\<rfloor> mod int (length ex_buffer)))"
    by blast
  with h4 r show ?thesis by (simp add: ex_fdi_replay_11 ex_buffer_def)
qed


section \<open>Ramp\<close>

text \<open>
  Claim C5, as amended. The claim has \<open>observed == real\<close> from
  \<open>t = start_time + duration\<close> on; the loop body still injects at that time; and what it
  writes, a later attack on the same signal overwrites. For a ramp attack with rate
  \<open>r\<close>, with no duration or a finite one other than zero, on a signal of the snapshot:
  at a time \<open>t\<close> in its window (\<open>start_time \<le> t\<close>, and \<open>t \<le> start_time + duration\<close> when
  there is a duration) the attack's pass of the loop sets
  \<open>observed[target_signal] = real[target_signal] + r * (t - start_time)\<close>, whatever earlier
  attacks wrote, and every call of \<open>inject_attacks\<close> at \<open>t\<close> that returns hands this
  value out, unless an attack registered later, started (\<open>start_time \<le> t\<close>) and with its
  window not ended at \<open>t\<close>, has the same target; at a time outside its window (\<open>t < start_time\<close>, or
  \<open>t > start_time + duration\<close>) the pass writes nothing, and every call that returns has
  \<open>observed[target_signal] == real[target_signal]\<close>, unless another attack, started and
  with its window not ended at \<open>t\<close>, has the same target.
\<close>

theorem ramp_observed:
  assumes "attack_type a = RAMP" and "params a ''target_signal'' = Some (PStr tg)"
    and "params a ''rate'' = Some (PFloat r)" and "signals tg = Some v"
    and "duration a \<noteq> Some 0"
  shows "snd (inject_one t signals rng aid a attacked) =
           Inr (if within_window t a then attacked(tg \<mapsto> v + r * (t - start_time a)) else attacked)
       \<and> (\<forall>svc xs ys run_id observed svc'.
             inject_attacks svc t run_id signals rng = (Inr observed, svc')
             \<and> active_attacks svc = xs @ (aid, a) # ys
             \<and> within_window t a
             \<and> (\<forall>(k, b) \<in> set ys.
                  start_time b \<le> t \<and> (\<forall>d. duration b = Some d \<and> d \<noteq> 0 \<longrightarrow> t \<le> start_time b + d)
                  \<longrightarrow> params b ''target_signal'' \<noteq> Some (PStr tg))
             \<longrightarrow> observed tg = Some (v + r * (t - start_time a)))
       \<and> (\<forall>svc xs ys run_id observed svc'.
             inject_attacks svc t run_id signals rng = (Inr observed, svc')
             \<and> active_attacks svc = xs @ (aid, a) # ys
             \<and> \<not> within_window t a
             \<and> (\<forall>(k, b) \<in> set (xs @ ys).
                  start_time b \<le> t \<and> (\<forall>d. duration b = Some d \<and> d \<noteq> 0 \<longrightarrow> t \<le> start_time b + d)
                  \<longrightarrow> params b ''target_signal'' \<noteq> Some (PStr tg))
             \<longrightarrow> observed tg = Some v)"
proof -
  have ap: "apply_attack t signals nz (advance t a) acc =
      Inr (acc(tg \<mapsto> v + r * (t - start_time a)))" for nz acc
    using assms(1-4) by (rule ramp_pass)
  have w: "in_window t a = within_window t a" using assms(5) by (rule in_window_within)
  have one: "snd (inject_one t signals rng aid a attacked) =
           Inr (if within_window t a then attacked(tg \<mapsto> v + r * (t - start_time a)) else attacked)"
    by (simp add: inject_one_eq w ap)
  have inside: "observed tg = Some (v + r * (t - start_time a))"
    if "inject_attacks svc t run_id signals rng = (Inr observed, svc')"
      and "active_attacks svc = xs @ (aid, a) # ys"
      and "within_window t a"
      and "\<forall>(k, b) \<in> set ys.
                  start_time b \<le> t \<and> (\<forall>d. duration b = Some d \<and> d \<noteq> 0 \<longrightarrow> t \<le> start_time b + d)
                  \<longrightarrow> params b ''target_signal'' \<noteq> Some (PStr tg)"
    for svc xs ys run_id observed svc'
  proof -
    from that(3) w have "in_window t a" by simp
    from returned_last_write [OF that(1,2) this that(4)] ap show ?thesis by blast
  qed
  have outside: "observed tg = Some v"
    if r: "inject_attacks svc t run_id signals rng = (Inr observed, svc')"
      and reg: "active_attacks svc = xs @ (aid, a) # ys"
      and out: "\<not> within_window t a"
      and others: "\<forall>(k, b) \<in> set (xs @ ys).
                  start_time b \<le> t \<and> (\<forall>d. duration b = Some d \<and> d \<noteq> 0 \<longrightarrow> t \<le> start_time b + d)
                  \<longrightarrow> params b ''target_signal'' \<noteq> Some (PStr tg)"
    for svc xs ys run_id observed svc'
  proof -
    from out w have "\<not> in_window t a" by simp
    with no_writer [OF others]
    have "\<forall>(k, b) \<in> set (xs @ (aid, a) # ys). in_window t b \<longrightarrow> target_of b \<noteq> Some tg"
      by auto
    then have "\<forall>(k, b) \<in> set (active_attacks svc). in_window t b \<longrightarrow> target_of b \<noteq> Some tg"
      by (simp only: reg)
    moreover from r obtain reg' where
      "inject_loop t signals rng (active_attacks svc) signals = (reg', Inr observed)"
      by (auto simp add: inject_attacks_def split: prod.splits)
    ultimately have "observed tg = signals tg" by (rule inject_loop_frame [rotated])
    with assms(4) show ?thesis by simp
  qed
  from one inside outside show ?thesis by blast
qed

text \<open>
  The ramp of the documentation (rate 0.1, start 100, duration 50) at \<open>t = 150\<close>, the
  end of its window: the real value 26 is observed as 31. With a denial of service
  registered after the ramp on the same signal, the call at \<open>t = 110\<close> returns the
  blocked value 0, not 27, and so does the call at \<open>t = 160\<close>, after the ramp's window,
  where the real value is 26.
\<close>

theorem ramp_observed_counterexample:
  "fst (inject_attacks ex_service_ramp 150 1 [''temp'' \<mapsto> 26] (\<lambda>_. 0)) = Inr [''temp'' \<mapsto> 31]
   \<and> (150::real) \<ge> 100 + 50 \<and> (31::real) \<noteq> 26
   \<and> fst (inject_attacks ex_service_ramp_dos 110 1 [''temp'' \<mapsto> 26] (\<lambda>_. 0)) = Inr [''temp'' \<mapsto> 0]
   \<and> (0::real) \<noteq> 26 + 1 / 10 * (110 - 100)
   \<and> fst (inject_attacks ex_service_ramp_dos 160 1 [''temp'' \<mapsto> 26] (\<lambda>_. 0)) = Inr [''temp'' \<mapsto> 0]
   \<and> (0::real) \<noteq> 26"
  by (simp add: ex_ramp_150 ex_ramp_dos_110 ex_ramp_dos_160)

theorem ramp_observed_witness:
  "map fst (active_attacks ex_service_fdi_ramp) = [''a1'', ''a7'']
   \<and> ex_signals ''x'' = Some 5
   \<and> fst (inject_attacks ex_service_fdi_ramp 12 1 ex_signals (\<lambda>_. 0)) =
       Inr (ex_signals(''x'' \<mapsto> 9))
   \<and> (9::real) = 5 + 2 * (12 - 10)"
proof -
  let ?ps = "[''target_signal'' \<mapsto> PStr ''x'', ''rate'' \<mapsto> PFloat 2]"
  let ?a = "\<lparr>attack_id = ''a7'', attack_type = RAMP, target_signal = ''x'',
          start_time = 10, duration = Some 20, params = ?ps, status = ''armed''\<rparr>"
  let ?b = "\<lparr>attack_id = ''a1'', attack_type = FALSE_DATA, target_signal = ''x'',
          start_time = 10, duration = Some 20, params = ex_params_fdi, status = ''armed''\<rparr>"
  have h1: "attack_type ?a = RAMP" by simp
  have h2: "params ?a ''target_signal'' = Some (PStr ''x'')" by simp
  have h3: "params ?a ''rate'' = Some (PFloat 2)" by simp
  have h4: "ex_signals ''x'' = Some 5" by (simp add: ex_signals_def)
  have h5: "duration ?a \<noteq> Some 0" by simp
  have w: "within_window 12 ?a" by (simp add: within_window_def)
  have r: "active_attacks ex_service_fdi_ramp = [(''a1'', ?b)] @ (''a7'', ?a) # []"
    by (simp add: ex_service_fdi_ramp_def ex_service_fdi_def register_attack_def new_service_def)
  have l: "\<forall>(k, b) \<in> set [].
             start_time b \<le> 12 \<and> (\<forall>d. duration b = Some d \<and> d \<noteq> 0 \<longrightarrow> 12 \<le> start_time b + d)
             \<longrightarrow> params b ''target_signal'' \<noteq> Some (PStr ''x'')"
    by simp
  have e: "inject_attacks ex_service_fdi_ramp 12 1 ex_signals (\<lambda>_. 0) =
      (Inr (ex_signals(''x'' \<mapsto> 9)),
       snd (inject_attacks ex_service_fdi_ramp 12 1 ex_signals (\<lambda>_. 0)))"
    using ex_fdi_ramp_12 by (metis prod.collapse)
  from ramp_observed [where a = "?a" and tg = "''x''" and r = 2 and signals = ex_signals
      and v = 5 and t = 12 and rng = "\<lambda>_. 0" and aid = "''a7''" and attacked = Map.empty,
      OF h1 h2 h3 h4 h5] e r w l
  have "(ex_signals(''x'' \<mapsto> 9)) ''x'' = Some (5 + 2 * (12 - start_time ?a))"
    by blast
  with h4 r show ?thesis by (simp add: ex_fdi_ramp_12)
qed


section \<open>One step of the simulator\<close>

lemma compute_control_frame:
  assumes "compute_control self observed = Inr (control_actions, self1)"
  shows "pid_compute (controller (sim_model self)) (sim_controller self) observed (sim_dt self) =
           Inr (control_actions, sim_controller self1)"
    and "self1 = self\<lparr>sim_controller := sim_controller self1\<rparr>"
  using assms
  by (auto simp add: compute_control_def split: sum.splits prod.splits)

lemma integrate_state:
  "sim_state (integrate self real_signals control_actions dt) =
     solver_step (solver (sim_model self)) (derivatives (components (sim_model self)))
       (sim_state self) control_actions (sim_t self) dt"
  by (simp add: integrate_def)

lemma step_success:
  assumes "step now rng dt self svc db = (Inr msg, self', svc', db')"
  shows "tel_real msg = compute_real_signals self"
    and "inject_attacks svc (sim_t self) (sim_run_id self) (tel_real msg) rng = (Inr (tel_observed msg), svc')"
    and "compute_control self (tel_observed msg) =
           Inr (tel_control msg, self\<lparr>sim_controller := sim_controller self'\<rparr>)"
    and "self' = (integrate (self\<lparr>sim_controller := sim_controller self'\<rparr>)
                   (tel_real msg) (tel_control msg) dt)\<lparr>sim_t := sim_t self + dt\<rparr>"
proof -
  from assms obtain observed control_actions self1 where
    i: "inject_attacks svc (sim_t self) (sim_run_id self) (compute_real_signals self) rng =
          (Inr observed, svc')"
    and c: "compute_control self observed = Inr (control_actions, self1)"
    and m: "tel_real msg = compute_real_signals self" "tel_observed msg = observed"
      "tel_control msg = control_actions"
    and s: "self' = (integrate self1 (compute_real_signals self) control_actions dt)
              \<lparr>sim_t := sim_t (integrate self1 (compute_real_signals self) control_actions dt) + dt\<rparr>"
    by (auto simp add: step_def Let_def split: prod.splits sum.splits)
  from compute_control_frame(2) [OF c] have f: "self1 = self\<lparr>sim_controller := sim_controller self1\<rparr>" .
  from s have "sim_controller self' = sim_controller self1"
    by (simp add: integrate_def)
  with f have e: "self1 = self\<lparr>sim_controller := sim_controller self'\<rparr>" by simp
  show "tel_real msg = compute_real_signals self" by (rule m(1))
  show "inject_attacks svc (sim_t self) (sim_run_id self) (tel_real msg) rng = (Inr (tel_observed msg), svc')"
    using i m by simp
  show "compute_control self (tel_observed msg) =
           Inr (tel_control msg, self\<lparr>sim_controller := sim_controller self'\<rparr>)"
    using c m e by simp
  show "self' = (integrate (self\<lparr>sim_controller := sim_controller self'\<rparr>)
                   (tel_real msg) (tel_control msg) dt)\<lparr>sim_t := sim_t self + dt\<rparr>"
    using s e m by (simp add: integrate_def)
qed

lemma ex_step_fdi:
  "step 0 (\<lambda>_. 0) (1 / 10) ex_sim ex_service_fdi ex_db =
     (Inr \<lparr>tel_t = 15, tel_real = [''x'' \<mapsto> 5], tel_observed = [''x'' \<mapsto> 17 / 2],
            tel_control = [''u'' \<mapsto> 0],
            tel_attacks = active_attacks (snd (inject_attacks ex_service_fdi 15 1 [''x'' \<mapsto> 5] (\<lambda>_. 0)))\<rparr>,
      ex_sim\<lparr>sim_t := 151 / 10, sim_state := 99 / 20,
             sim_controller := \<lparr>integral_term = 0, prev_error = - 3 / 2, output_min = 0, output_max = 1\<rparr>\<rparr>,
      snd (inject_attacks ex_service_fdi 15 1 [''x'' \<mapsto> 5] (\<lambda>_. 0)), ex_db)"
  by (simp add: step_def compute_real_signals_def compute_control_def integrate_def pid_compute_def
        solver_step_def clamp_def get_active_attacks_def ex_model_def ex_sim_def ex_db_def ex_defs eval_defs)

lemma ex_step_fdi9:
  "step 0 (\<lambda>_. 0) (1 / 10) ex_sim ex_service_fdi9 ex_db =
     (Inr \<lparr>tel_t = 15, tel_real = [''x'' \<mapsto> 5], tel_observed = [''x'' \<mapsto> 9],
            tel_control = [''u'' \<mapsto> 0],
            tel_attacks = active_attacks (snd (inject_attacks ex_service_fdi9 15 1 [''x'' \<mapsto> 5] (\<lambda>_. 0)))\<rparr>,
      ex_sim\<lparr>sim_t := 151 / 10, sim_state := 99 / 20,
             sim_controller := \<lparr>integral_term = 0, prev_error = - 2, output_min = 0, output_max = 1\<rparr>\<rparr>,
      snd (inject_attacks ex_service_fdi9 15 1 [''x'' \<mapsto> 5] (\<lambda>_. 0)), ex_db)"
  by (simp add: step_def compute_real_signals_def compute_control_def integrate_def pid_compute_def
        solver_step_def clamp_def get_active_attacks_def ex_model_def ex_sim_def ex_db_def
        ex_service_fdi9_def ex_defs eval_defs)

text \<open>
  Claim C2. In a step that completes, the control actions are what the controller
  computes from the observed signals (the result of the injection) and the controller
  state; the next real state is what the solver computes from the real state, the real
  dynamics and these control actions. Two steps from the same simulator, with whatever
  attack services, noise and database, see the same real signals, and if their control
  actions are equal their next real states are equal, also when the controller state
  they leave differs.
\<close>

theorem step_control_only:
  assumes "step now1 rng1 dt self svc1 db1 = (Inr msg1, self1, svc1', db1')"
    and "step now2 rng2 dt self svc2 db2 = (Inr msg2, self2, svc2', db2')"
  shows "fst (inject_attacks svc1 (sim_t self) (sim_run_id self) (tel_real msg1) rng1) =
           Inr (tel_observed msg1)
       \<and> pid_compute (controller (sim_model self)) (sim_controller self) (tel_observed msg1)
           (sim_dt self) = Inr (tel_control msg1, sim_controller self1)
       \<and> tel_real msg1 = signals_of (components (sim_model self)) (sim_state self)
       \<and> tel_real msg2 = tel_real msg1
       \<and> sim_state self1 =
           solver_step (solver (sim_model self)) (derivatives (components (sim_model self)))
             (sim_state self) (tel_control msg1) (sim_t self) dt
       \<and> (tel_control msg1 = tel_control msg2 \<longrightarrow> sim_state self1 = sim_state self2)"
proof -
  note a = step_success [OF assms(1)] and b = step_success [OF assms(2)]
  have c1: "pid_compute (controller (sim_model self)) (sim_controller self) (tel_observed msg1)
           (sim_dt self) = Inr (tel_control msg1, sim_controller self1)"
    using compute_control_frame(1) [OF a(3)] by simp
  have s1: "sim_state self1 =
           solver_step (solver (sim_model self)) (derivatives (components (sim_model self)))
             (sim_state self) (tel_control msg1) (sim_t self) dt"
    by (subst a(4)) (simp add: integrate_def)
  have s2: "sim_state self2 =
           solver_step (solver (sim_model self)) (derivatives (components (sim_model self)))
             (sim_state self) (tel_control msg2) (sim_t self) dt"
    by (subst b(4)) (simp add: integrate_def)
  from a(1,2) b(1) c1 s1 s2 show ?thesis
    by (simp add: compute_real_signals_def)
qed

theorem step_control_only_witness:
  "\<exists>msg1 self1 svc1 db1 msg2 self2 svc2 db2.
     step 0 (\<lambda>_. 0) (1 / 10) ex_sim ex_service_fdi ex_db = (Inr msg1, self1, svc1, db1)
     \<and> step 0 (\<lambda>_. 0) (1 / 10) ex_sim ex_service_fdi9 ex_db = (Inr msg2, self2, svc2, db2)
     \<and> tel_observed msg1 ''x'' = Some (17 / 2) \<and> tel_observed msg2 ''x'' = Some 9
     \<and> sim_controller self1 \<noteq> sim_controller self2
     \<and> tel_control msg1 = tel_control msg2
     \<and> sim_state self1 = sim_state self2"
proof -
  let ?msg1 = "\<lparr>tel_t = 15, tel_real = [''x'' \<mapsto> 5], tel_observed = [''x'' \<mapsto> 17 / 2],
            tel_control = [''u'' \<mapsto> 0::real],
            tel_attacks = active_attacks (snd (inject_attacks ex_service_fdi 15 1 [''x'' \<mapsto> 5] (\<lambda>_. 0)))\<rparr>"
  let ?msg2 = "\<lparr>tel_t = 15, tel_real = [''x'' \<mapsto> 5], tel_observed = [''x'' \<mapsto> 9],
            tel_control = [''u'' \<mapsto> 0::real],
            tel_attacks = active_attacks (snd (inject_attacks ex_service_fdi9 15 1 [''x'' \<mapsto> 5] (\<lambda>_. 0)))\<rparr>"
  let ?s1 = "ex_sim\<lparr>sim_t := 151 / 10, sim_state := 99 / 20,
             sim_controller := \<lparr>integral_term = 0, prev_error = - 3 / 2, output_min = 0, output_max = 1\<rparr>\<rparr>"
  let ?s2 = "ex_sim\<lparr>sim_t := 151 / 10, sim_state := 99 / 20,
             sim_controller := \<lparr>integral_term = 0, prev_error = - 2, output_min = 0, output_max = 1\<rparr>\<rparr>"
  have c: "tel_control ?msg1 = tel_control ?msg2" by simp
  from step_control_only [OF ex_step_fdi ex_step_fdi9] c
  have "sim_state ?s1 = sim_state ?s2"
    by blast
  moreover have "sim_controller ?s1 \<noteq> sim_controller ?s2" by simp
  ultimately show ?thesis using c
    by (simp add: ex_step_fdi ex_step_fdi9)
qed


end
